theory Spec2Isabelle
  imports Complex_Main "HOL-Library.Monad_Syntax"
begin

section \<open>Python strings\<close>

text \<open>
  A Python \<^verbatim>\<open>str\<close> is modelled as a \<^typ>\<open>string\<close>: a list of characters with code
  points below 256, so that \<^verbatim>\<open>len\<close> is \<^const>\<open>length\<close>. The line feed is written
  \<open>nl\<close>.
\<close>

definition nl :: char where
  "nl = CHR 0x0A"

text \<open>
  The characters for which \<^verbatim>\<open>str.isspace\<close> holds, which are also the ones that the
  regular expression \<^verbatim>\<open>\s\<close> matches on a \<^verbatim>\<open>str\<close>.
\<close>

definition is_space :: "char \<Rightarrow> bool" where
  "is_space c = (c \<in> set [CHR 0x09, CHR 0x0A, CHR 0x0B, CHR 0x0C, CHR 0x0D,
       CHR 0x1C, CHR 0x1D, CHR 0x1E, CHR 0x1F, CHR 0x20, CHR 0x85, CHR 0xA0])"

text \<open>\<^verbatim>\<open>s.strip()\<close>\<close>

definition strip :: "string \<Rightarrow> string" where
  "strip s = rev (dropWhile is_space (rev (dropWhile is_space s)))"

text \<open>
  \<^verbatim>\<open>s.split()\<close>: the maximal runs of characters that are not white space. The first
  argument of \<open>split_words\<close> is the word being read.
\<close>

fun split_words :: "string \<Rightarrow> string \<Rightarrow> string list" where
  "split_words w [] = (if w = [] then [] else [w])"
| "split_words w (c # cs) =
     (if is_space c then (if w = [] then split_words [] cs else w # split_words [] cs)
      else split_words (w @ [c]) cs)"

definition split_ws :: "string \<Rightarrow> string list" where
  "split_ws s = split_words [] s"

text \<open>\<^verbatim>\<open>sep.join(xs)\<close>\<close>

fun join :: "string \<Rightarrow> string list \<Rightarrow> string" where
  "join sep [] = []"
| "join sep [x] = x"
| "join sep (x # y # ys) = x @ sep @ join sep (y # ys)"

text \<open>\<^verbatim>\<open>str(n)\<close> for a natural number, as an f-string renders \<^verbatim>\<open>{len(chunks)}\<close>.\<close>

fun str_nat :: "nat \<Rightarrow> string" where
  "str_nat n = (if n < 10 then [''0123456789'' ! n]
                else str_nat (n div 10) @ [''0123456789'' ! (n mod 10)])"

declare str_nat.simps [simp del]

text \<open>
  \<^verbatim>\<open>xs[start:stop]\<close> with Python's treatment of negative and out-of-range bounds.
\<close>

definition py_slice :: "'a list \<Rightarrow> int \<Rightarrow> int \<Rightarrow> 'a list" where
  "py_slice xs start stop =
     (let n = int (length xs);
          lo = (if start < 0 then max (start + n) 0 else min start n);
          hi = (if stop < 0 then max (stop + n) 0 else min stop n)
      in take (nat (hi - lo)) (drop (nat lo) xs))"

section \<open>The regular expressions of the program\<close>

text \<open>
  Python's \<^verbatim>\<open>re\<close> module is a backtracking matcher. Every pattern of this program is a
  sequence of atoms, each of them a character class taken once (\<open>Cls\<close>), or repeated
  between \<open>lo\<close> and \<open>hi\<close> times, as often as possible first (\<open>Greedy\<close>: \<^verbatim>\<open>+\<close>,
  \<^verbatim>\<open>*\<close>, \<^verbatim>\<open>{m,n}\<close>) or as seldom as possible first (\<open>Lazy\<close>: \<^verbatim>\<open>*?\<close>), with at most one
  capture group. \<open>match_atom\<close> and \<open>match_seq\<close> list the ways to match at the start of a
  string in the order in which the matcher tries them, as pairs of the text consumed and
  the text left.
\<close>

datatype atom =
    Cls "char \<Rightarrow> bool"
  | Greedy "char \<Rightarrow> bool" nat "nat option"
  | Lazy "char \<Rightarrow> bool" nat "nat option"

definition counts :: "(char \<Rightarrow> bool) \<Rightarrow> nat \<Rightarrow> nat option \<Rightarrow> string \<Rightarrow> nat list" where
  "counts P lo hi s =
     (let n = length (takeWhile P s);
          top = (case hi of None \<Rightarrow> n | Some h \<Rightarrow> min n h)
      in [lo..<Suc top])"

fun match_atom :: "atom \<Rightarrow> string \<Rightarrow> (string \<times> string) list" where
  "match_atom (Cls P) s = (case s of [] \<Rightarrow> [] | c # cs \<Rightarrow> if P c then [([c], cs)] else [])"
| "match_atom (Greedy P lo hi) s = map (\<lambda>k. (take k s, drop k s)) (rev (counts P lo hi s))"
| "match_atom (Lazy P lo hi) s = map (\<lambda>k. (take k s, drop k s)) (counts P lo hi s)"

fun match_seq :: "atom list \<Rightarrow> string \<Rightarrow> (string \<times> string) list" where
  "match_seq [] s = [([], s)]"
| "match_seq (a # as) s =
     concat (map (\<lambda>(m1, r1). map (\<lambda>(m2, r2). (m1 @ m2, r2)) (match_seq as r1))
                 (match_atom a s))"

text \<open>
  A pattern is the atoms before the capture group, the atoms of the group and the atoms
  after it (a pattern without a group has an empty group). A match is the whole text
  matched, the text of the group and the text left; \<open>re_match\<close> is the match that the
  backtracking finds first.
\<close>

type_synonym pattern = "atom list \<times> atom list \<times> atom list"

definition all_matches :: "pattern \<Rightarrow> string \<Rightarrow> (string \<times> string \<times> string) list" where
  "all_matches p s = (case p of (pre, grp, post) \<Rightarrow>
     concat (map (\<lambda>(a, r1).
       concat (map (\<lambda>(g, r2).
         map (\<lambda>(b, r3). (a @ g @ b, g, r3)) (match_seq post r2))
       (match_seq grp r1)))
     (match_seq pre s)))"

definition re_match :: "pattern \<Rightarrow> string \<Rightarrow> (string \<times> string \<times> string) option" where
  "re_match p s = (case all_matches p s of [] \<Rightarrow> None | m # _ \<Rightarrow> Some m)"

text \<open>
  \<^verbatim>\<open>re.sub(p, repl, s)\<close>: scan from the left; where the pattern matches, write the
  replacement (a function of the group) and go on after the match, otherwise copy one
  character. The number is how many characters of the last match are still to be passed
  over. Every pattern of this program consumes at least one character.
\<close>

fun sub_from :: "pattern \<Rightarrow> (string \<Rightarrow> string) \<Rightarrow> nat \<Rightarrow> string \<Rightarrow> string" where
  "sub_from p repl k [] = []"
| "sub_from p repl (Suc k) (c # cs) = sub_from p repl k cs"
| "sub_from p repl 0 (c # cs) =
     (case re_match p (c # cs) of
        None \<Rightarrow> c # sub_from p repl 0 cs
      | Some (m, g, r) \<Rightarrow> repl g @ sub_from p repl (length m - 1) cs)"

definition re_sub :: "pattern \<Rightarrow> (string \<Rightarrow> string) \<Rightarrow> string \<Rightarrow> string" where
  "re_sub p repl s = sub_from p repl 0 s"

text \<open>
  \<^verbatim>\<open>re.sub('^' + p, repl, s)\<close>: without the multi-line flag the anchor holds at the
  start of the string only, so at most one match is replaced.
\<close>

definition re_sub_start :: "pattern \<Rightarrow> (string \<Rightarrow> string) \<Rightarrow> string \<Rightarrow> string" where
  "re_sub_start p repl s = (case re_match p s of None \<Rightarrow> s | Some (m, g, r) \<Rightarrow> repl g @ r)"

text \<open>
  \<^verbatim>\<open>re.split(p, s)\<close> for a pattern with one capture group: the text before the first
  match, the group of the match, the text up to the next match, its group, and so on, and
  the text after the last match. The string argument before the input is the segment
  being read.
\<close>

fun split_from :: "pattern \<Rightarrow> nat \<Rightarrow> string \<Rightarrow> string \<Rightarrow> string list" where
  "split_from p k seg [] = [seg]"
| "split_from p (Suc k) seg (c # cs) = split_from p k seg cs"
| "split_from p 0 seg (c # cs) =
     (case re_match p (c # cs) of
        None \<Rightarrow> split_from p 0 (seg @ [c]) cs
      | Some (m, g, r) \<Rightarrow> seg # g # split_from p (length m - 1) [] cs)"

definition re_split :: "pattern \<Rightarrow> string \<Rightarrow> string list" where
  "re_split p s = split_from p 0 [] s"

abbreviation is_chr :: "char \<Rightarrow> char \<Rightarrow> bool" where
  "is_chr a \<equiv> (\<lambda>c. c = a)"

abbreviation not_chr :: "char \<Rightarrow> char \<Rightarrow> bool" where
  "not_chr a \<equiv> (\<lambda>c. c \<noteq> a)"

abbreviation backtick :: char where
  "backtick \<equiv> CHR 0x60"

text \<open>The patterns, in the order in which the source has them.\<close>

definition html_tag_pattern :: pattern where
  \<comment> \<open>\<^verbatim>\<open><[^>]+>\<close>\<close>
  "html_tag_pattern =
     ([Cls (is_chr CHR ''<''), Greedy (not_chr CHR ''>'') 1 None, Cls (is_chr CHR ''>'')], [], [])"

definition link_pattern :: pattern where
  \<comment> \<open>\<^verbatim>\<open>\[([^\]]+)\]\([^\)]+\)\<close>\<close>
  "link_pattern =
     ([Cls (is_chr CHR ''['')],
      [Greedy (not_chr CHR '']'') 1 None],
      [Cls (is_chr CHR '']''), Cls (is_chr CHR ''(''), Greedy (not_chr CHR '')'') 1 None,
       Cls (is_chr CHR '')'')])"

definition code_fence_pattern :: pattern where
  \<comment> \<open>\<^verbatim>\<open>```[^\n]*\n.*?```\<close> with \<^verbatim>\<open>re.DOTALL\<close>\<close>
  "code_fence_pattern =
     ([Cls (is_chr backtick), Cls (is_chr backtick), Cls (is_chr backtick),
       Greedy (not_chr nl) 0 None, Cls (is_chr nl), Lazy (\<lambda>c. True) 0 None,
       Cls (is_chr backtick), Cls (is_chr backtick), Cls (is_chr backtick)], [], [])"

definition inline_code_pattern :: pattern where
  \<comment> \<open>\<^verbatim>\<open>`([^`]+)`\<close>\<close>
  "inline_code_pattern =
     ([Cls (is_chr backtick)], [Greedy (not_chr backtick) 1 None], [Cls (is_chr backtick)])"

definition heading_marker_pattern :: pattern where
  \<comment> \<open>\<^verbatim>\<open>#+\s+\<close>\<close>
  "heading_marker_pattern = ([Greedy (is_chr CHR ''#'') 1 None, Greedy is_space 1 None], [], [])"

definition bold_pattern :: pattern where
  \<comment> \<open>\<^verbatim>\<open>\*\*([^\*]+)\*\*\<close>\<close>
  "bold_pattern =
     ([Cls (is_chr CHR ''*''), Cls (is_chr CHR ''*'')],
      [Greedy (not_chr CHR ''*'') 1 None],
      [Cls (is_chr CHR ''*''), Cls (is_chr CHR ''*'')])"

definition italic_pattern :: pattern where
  \<comment> \<open>\<^verbatim>\<open>\*([^\*]+)\*\<close>\<close>
  "italic_pattern =
     ([Cls (is_chr CHR ''*'')], [Greedy (not_chr CHR ''*'') 1 None], [Cls (is_chr CHR ''*'')])"

definition blank_lines_pattern :: pattern where
  \<comment> \<open>\<^verbatim>\<open>\n{3,}\<close>\<close>
  "blank_lines_pattern = ([Greedy (is_chr nl) 3 None], [], [])"

definition header_pattern :: pattern where
  \<comment> \<open>\<^verbatim>\<open>\n(#{1,3}\s+.+)\n\<close>\<close>
  "header_pattern =
     ([Cls (is_chr nl)],
      [Greedy (is_chr CHR ''#'') 1 (Some 3), Greedy is_space 1 None, Greedy (not_chr nl) 1 None],
      [Cls (is_chr nl)])"

section \<open>The chunker (rag/ingestion.py)\<close>

definition clean_markdown :: "string \<Rightarrow> string" where
  "clean_markdown text0 =
     (let text1 = re_sub html_tag_pattern (\<lambda>g. []) text0;
          text2 = re_sub link_pattern (\<lambda>g. g) text1;
          text3 = re_sub code_fence_pattern (\<lambda>g. []) text2;
          text4 = re_sub inline_code_pattern (\<lambda>g. g) text3;
          text5 = re_sub heading_marker_pattern (\<lambda>g. []) text4;
          text6 = re_sub bold_pattern (\<lambda>g. g) text5;
          text7 = re_sub italic_pattern (\<lambda>g. g) text6;
          text8 = re_sub blank_lines_pattern (\<lambda>g. [nl, nl]) text7
      in strip text8)"

text \<open>
  \<^verbatim>\<open>DocumentChunk\<close> of rag/models.py. The field \<^verbatim>\<open>id\<close> is \<open>chunk_id\<close> and the field
  \<^verbatim>\<open>text\<close> is \<open>chunk_text\<close> here. The metadata dictionary is a list of pairs.
\<close>

record DocumentChunk =
  chunk_id :: string
  doc_path :: string
  title :: string
  chunk_text :: string
  embedding :: "real list option"
  metadata :: "(string \<times> string) list"

text \<open>The fields of \<^verbatim>\<open>settings\<close> (config.py) that the modelled code reads.\<close>

record settings =
  chunk_size :: int
  chunk_overlap :: int
  top_k_results :: int

definition default_settings :: settings where
  "default_settings = \<lparr>chunk_size = 500, chunk_overlap = 100, top_k_results = 5\<rparr>"

text \<open>
  The loop of \<^verbatim>\<open>chunk_by_size\<close>. It may run forever (when the overlap is not below the
  size), so it is a partial function: \<open>None\<close> is the loop that does not return.
\<close>

partial_function (option) chunk_by_size_loop ::
  "string list \<Rightarrow> int \<Rightarrow> int \<Rightarrow> int \<Rightarrow> string list \<Rightarrow> string list option" where
  "chunk_by_size_loop words sz overlap start chunks =
     (if start < int (length words) then
        (let end = start + sz;
             chunk = join '' '' (py_slice words start end);
             chunks' = chunks @ [chunk]
         in if end \<ge> int (length words) then Some chunks'
            else chunk_by_size_loop words sz overlap (end - overlap) chunks')
      else Some chunks)"

declare chunk_by_size_loop.simps [code]

definition chunk_by_size :: "string \<Rightarrow> int \<Rightarrow> int \<Rightarrow> string list option" where
  "chunk_by_size txt sz overlap = chunk_by_size_loop (split_ws txt) sz overlap 0 []"

text \<open>
  \<^verbatim>\<open>hashlib.md5(key.encode()).hexdigest()\<close> is a parameter \<open>md5\<close> of the chunker: a
  function from the key to its digest.
\<close>

definition new_chunk ::
  "(string \<Rightarrow> string) \<Rightarrow> string \<Rightarrow> string \<Rightarrow> string \<Rightarrow> string \<Rightarrow> string \<Rightarrow> DocumentChunk" where
  "new_chunk md5 key path ttl txt section =
     \<lparr>chunk_id = md5 key, doc_path = path, title = ttl, chunk_text = txt,
      embedding = None, metadata = [(''section'', section)]\<rparr>"

text \<open>
  The loop over \<^verbatim>\<open>enumerate(sub_chunks)\<close>: the key of window \<open>j\<close> is built from the number
  of chunks in the list at that moment, which grows with every window appended.
\<close>

fun append_sub_chunks ::
  "(string \<Rightarrow> string) \<Rightarrow> string \<Rightarrow> string \<Rightarrow> string \<Rightarrow> nat \<Rightarrow> string list
   \<Rightarrow> DocumentChunk list \<Rightarrow> DocumentChunk list" where
  "append_sub_chunks md5 path ttl section_title j [] chunks = chunks"
| "append_sub_chunks md5 path ttl section_title j (sub_chunk # rest) chunks =
     append_sub_chunks md5 path ttl section_title (Suc j) rest
       (chunks @ [new_chunk md5 (path @ '':'' @ str_nat (length chunks) @ '':'' @ str_nat j) path
                    (ttl @ '' - '' @ section_title) sub_chunk section_title])"

text \<open>
  The text before a header, or after the last one (lines 68--78 and 109--119): it is
  emitted with the document's title when what is left of it after cleaning has more than
  50 characters.
\<close>

definition flush_current_text ::
  "(string \<Rightarrow> string) \<Rightarrow> string \<Rightarrow> string \<Rightarrow> string \<Rightarrow> string \<Rightarrow> DocumentChunk list
   \<Rightarrow> DocumentChunk list" where
  "flush_current_text md5 path ttl section current_text chunks =
     (if strip current_text \<noteq> [] then
        (let txt = clean_markdown current_text
         in if txt \<noteq> [] \<and> length txt > 50
            then chunks @ [new_chunk md5 (path @ '':'' @ str_nat (length chunks)) path ttl txt section]
            else chunks)
      else chunks)"

text \<open>
  One round of the loop over the sections with \<^verbatim>\<open>i + 1 < len(sections)\<close>: \<open>hdr\<close> is
  \<^verbatim>\<open>sections[i]\<close> and \<open>section_content\<close> is \<^verbatim>\<open>sections[i + 1]\<close>. The state is the list
  of chunks and \<^verbatim>\<open>current_text\<close>.
\<close>

definition section_step ::
  "settings \<Rightarrow> (string \<Rightarrow> string) \<Rightarrow> string \<Rightarrow> string \<Rightarrow> string \<Rightarrow> string
   \<Rightarrow> DocumentChunk list \<times> string \<Rightarrow> (DocumentChunk list \<times> string) option" where
  "section_step cfg md5 path ttl hdr section_content st =
     (case st of (chunks0, current_text) \<Rightarrow>
        (let header = strip hdr;
             chunks = flush_current_text md5 path ttl ttl current_text chunks0;
             section_title = re_sub_start heading_marker_pattern (\<lambda>g. []) header;
             combined_text = section_title @ [nl, nl] @ section_content;
             txt = clean_markdown combined_text
         in if int (length txt) > chunk_size cfg then
              (case chunk_by_size txt (chunk_size cfg) (chunk_overlap cfg) of
                 None \<Rightarrow> None
               | Some sub_chunks \<Rightarrow>
                   Some (append_sub_chunks md5 path ttl section_title 0 sub_chunks chunks, []))
            else if txt \<noteq> [] \<and> length txt > 50 then
              Some (chunks @ [new_chunk md5 (path @ '':'' @ str_nat (length chunks)) path
                                (ttl @ '' - '' @ section_title) txt section_title], [])
            else Some (chunks, [])))"

text \<open>
  The loop \<^verbatim>\<open>for i in range(1, len(sections), 2)\<close>, over \<^verbatim>\<open>sections[1:]\<close>: two elements
  are a header and its content; a last element alone (\<^verbatim>\<open>i + 1 = len(sections)\<close>) is added
  to \<^verbatim>\<open>current_text\<close>.
\<close>

fun sections_loop ::
  "settings \<Rightarrow> (string \<Rightarrow> string) \<Rightarrow> string \<Rightarrow> string \<Rightarrow> string list
   \<Rightarrow> DocumentChunk list \<times> string \<Rightarrow> (DocumentChunk list \<times> string) option" where
  "sections_loop cfg md5 path ttl [] st = Some st"
| "sections_loop cfg md5 path ttl [last_section] st =
     (case st of (chunks, current_text) \<Rightarrow> Some (chunks, current_text @ last_section))"
| "sections_loop cfg md5 path ttl (hdr # section_content # rest) st =
     (case section_step cfg md5 path ttl hdr section_content st of
        None \<Rightarrow> None
      | Some st' \<Rightarrow> sections_loop cfg md5 path ttl rest st')"

definition chunk_by_headers ::
  "settings \<Rightarrow> (string \<Rightarrow> string) \<Rightarrow> string \<Rightarrow> string \<Rightarrow> string \<Rightarrow> DocumentChunk list option" where
  "chunk_by_headers cfg md5 content path ttl =
     (let sections = re_split header_pattern content
      in if length sections = 1 then
           (let txt = clean_markdown content
            in if txt \<noteq> [] then Some [new_chunk md5 (path @ '':0'') path ttl txt ttl]
               else Some [])
         else
           (case sections_loop cfg md5 path ttl (tl sections) ([], hd sections) of
              None \<Rightarrow> None
            | Some (chunks, current_text) \<Rightarrow>
                Some (flush_current_text md5 path ttl ''Additional Content'' current_text chunks)))"

section \<open>Embedding and ingestion (rag/ingestion.py, rag/vector\_store.py)\<close>

text \<open>
  An exception is a value: \<open>ValueError\<close> is the one that the program raises itself,
  \<open>Failure\<close> stands for any exception of a collaborator (the embedding service, the
  file system, the vector database). The string is what \<^verbatim>\<open>str(e)\<close> gives.
\<close>

datatype error = ValueError string | Failure string

fun error_message :: "error \<Rightarrow> string" where
  "error_message (ValueError msg) = msg"
| "error_message (Failure msg) = msg"

text \<open>The records that the logger of rag/ingestion.py receives, oldest first.\<close>

datatype level = INFO | WARNING | ERROR

type_synonym log = "(level \<times> string) list"

text \<open>
  What \<^verbatim>\<open>collection.add\<close> stores for a chunk. \<^verbatim>\<open>add_chunks\<close> builds the metadata from
  the path and the title and then copies the chunk's own metadata over it
  (\<open>dict_set\<close> is the assignment \<^verbatim>\<open>d[k] = v\<close>).
\<close>

record entry =
  entry_id :: string
  entry_embedding :: "real list option"
  entry_document :: string
  entry_metadata :: "(string \<times> string) list"

fun dict_set :: "(string \<times> string) list \<Rightarrow> string \<Rightarrow> string \<Rightarrow> (string \<times> string) list" where
  "dict_set [] k v = [(k, v)]"
| "dict_set ((k', v') # d) k v = (if k' = k then (k, v) # d else (k', v') # dict_set d k v)"

definition chunk_entry :: "DocumentChunk \<Rightarrow> entry" where
  "chunk_entry chunk =
     \<lparr>entry_id = chunk_id chunk, entry_embedding = embedding chunk,
      entry_document = chunk_text chunk,
      entry_metadata = foldl (\<lambda>d (k, v). dict_set d k v)
          [(''doc_path'', doc_path chunk), (''title'', title chunk)] (metadata chunk)\<rparr>"

text \<open>
  The state of a \<^verbatim>\<open>VectorStore\<close> is the content of its collection, a list of entries.
  \<open>rejects\<close> says whether the database refuses a batch (\<^verbatim>\<open>collection.add\<close> raising),
  and \<open>count_fails\<close> whether it fails to count (\<^verbatim>\<open>collection.count()\<close> raising); a count
  that returns is the number of entries. \<^verbatim>\<open>VectorStore.__init__\<close> has created the
  collection, so deleting it in \<^verbatim>\<open>clear\<close> succeeds.
\<close>

definition add_chunks ::
  "(entry list \<Rightarrow> error option) \<Rightarrow> DocumentChunk list \<Rightarrow> entry list \<Rightarrow> error + entry list" where
  "add_chunks rejects chunks collection =
     (if chunks = [] then Inr collection
      else (case rejects (map chunk_entry chunks) of
              Some e \<Rightarrow> Inl e
            | None \<Rightarrow> Inr (collection @ map chunk_entry chunks)))"

definition clear :: "entry list \<Rightarrow> entry list" where
  "clear collection = []"

definition count :: "(entry list \<Rightarrow> error option) \<Rightarrow> entry list \<Rightarrow> error + nat" where
  "count count_fails collection =
     (case count_fails collection of
        Some e \<Rightarrow> Inl e
      | None \<Rightarrow> Inr (length collection))"

text \<open>
  \<^verbatim>\<open>embed_chunks\<close>. \<open>embed_content\<close> is \<^verbatim>\<open>genai.embed_content(...)['embedding']\<close> as a function
  of the chunk's text, which may fail. The loop stops at the first failure, after it has
  logged it: the \<^verbatim>\<open>except\<close> clause ends in \<^verbatim>\<open>raise\<close>.
\<close>

fun embed_loop ::
  "(string \<Rightarrow> error + real list) \<Rightarrow> nat \<Rightarrow> nat \<Rightarrow> DocumentChunk list \<Rightarrow> log
   \<Rightarrow> log \<times> (error + DocumentChunk list)" where
  "embed_loop embed_content n i [] lg = (lg, Inr [])"
| "embed_loop embed_content n i (chunk # rest) lg =
     (case embed_content (chunk_text chunk) of
        Inl e \<Rightarrow>
          (lg @ [(ERROR, ''Error embedding chunk '' @ chunk_id chunk @ '': '' @ error_message e)],
           Inl e)
      | Inr v \<Rightarrow>
          (let lg' = (if (i + 1) mod 10 = 0
                      then lg @ [(INFO, ''Embedded '' @ str_nat (i + 1) @ ''/'' @ str_nat n
                                        @ '' chunks'')]
                      else lg)
           in (case embed_loop embed_content n (i + 1) rest lg' of
                 (lg'', Inl e) \<Rightarrow> (lg'', Inl e)
               | (lg'', Inr embedded) \<Rightarrow> (lg'', Inr (chunk\<lparr>embedding := Some v\<rparr> # embedded)))))"

definition embed_chunks ::
  "(string \<Rightarrow> error + real list) \<Rightarrow> DocumentChunk list \<Rightarrow> log
   \<Rightarrow> log \<times> (error + DocumentChunk list)" where
  "embed_chunks embed_content chunks lg =
     (case embed_loop embed_content (length chunks) 0 chunks
             (lg @ [(INFO, ''Embedding '' @ str_nat (length chunks) @ '' chunks...'')]) of
        (lg', Inl e) \<Rightarrow> (lg', Inl e)
      | (lg', Inr embedded) \<Rightarrow>
          (lg' @ [(INFO, ''Successfully embedded all '' @ str_nat (length chunks) @ '' chunks'')],
           Inr embedded))"

text \<open>\<^verbatim>\<open>s.startswith(p)\<close>, \<^verbatim>\<open>sub in s\<close> and the last component of a path.\<close>

fun startswith :: "string \<Rightarrow> string \<Rightarrow> bool" where
  "startswith s [] = True"
| "startswith [] (p # ps) = False"
| "startswith (c # cs) (p # ps) = (c = p \<and> startswith cs ps)"

fun contains :: "string \<Rightarrow> string \<Rightarrow> bool" where
  "contains [] sub = (sub = [])"
| "contains (c # cs) sub = (startswith (c # cs) sub \<or> contains cs sub)"

definition path_name :: "string \<Rightarrow> string" where
  "path_name p = rev (takeWhile (\<lambda>c. c \<noteq> CHR ''/'') (rev p))"

text \<open>
  The documentation folder as \<^verbatim>\<open>ingest_docs\<close> sees it: its path, whether it exists, the
  files that \<^verbatim>\<open>rglob("*.md")\<close> lists, and what \<^verbatim>\<open>parse_markdown_file\<close> gives for a file
  (the relative path, the title and the content, or an exception).
\<close>

record corpus =
  docs_path :: string
  docs_path_exists :: bool
  md_files :: "string list"
  parse_markdown_file :: "string \<Rightarrow> error + string \<times> string \<times> string"

text \<open>
  The loop over the files. A file that fails to parse is logged and passed over. The
  chunker may not return (see \<open>chunk_by_size_loop\<close>); then the loop does not either.
\<close>

fun files_loop ::
  "settings \<Rightarrow> (string \<Rightarrow> string) \<Rightarrow> (string \<Rightarrow> error + string \<times> string \<times> string)
   \<Rightarrow> string list \<Rightarrow> DocumentChunk list \<times> log \<Rightarrow> (DocumentChunk list \<times> log) option" where
  "files_loop cfg md5 parse [] st = Some st"
| "files_loop cfg md5 parse (md_file # rest) st =
     (case st of (all_chunks, lg) \<Rightarrow>
        if startswith (path_name md_file) ''.'' \<or> contains md_file ''node_modules''
        then files_loop cfg md5 parse rest (all_chunks, lg)
        else (case parse md_file of
                Inl e \<Rightarrow>
                  files_loop cfg md5 parse rest
                    (all_chunks,
                     lg @ [(ERROR, ''Error processing '' @ md_file @ '': '' @ error_message e)])
              | Inr (path, ttl, content) \<Rightarrow>
                  (case chunk_by_headers cfg md5 content path ttl of
                     None \<Rightarrow> None
                   | Some chunks \<Rightarrow>
                       files_loop cfg md5 parse rest
                         (all_chunks @ chunks,
                          lg @ [(INFO, ''Processing: '' @ path),
                                (INFO, ''  Created '' @ str_nat (length chunks)
                                       @ '' chunks from '' @ path)]))))"

text \<open>
  \<^verbatim>\<open>ingest_docs\<close>. The state is the collection of the vector store and the log; the
  result is that state afterwards and either the exception raised or the number returned.
  The last record of the log needs \<^verbatim>\<open>vector_store.count()\<close>: when that raises, the chunks
  have been added and the exception leaves \<^verbatim>\<open>ingest_docs\<close>.
\<close>

definition ingest_docs ::
  "settings \<Rightarrow> (string \<Rightarrow> string) \<Rightarrow> corpus \<Rightarrow> (string \<Rightarrow> error + real list)
   \<Rightarrow> (entry list \<Rightarrow> error option) \<Rightarrow> (entry list \<Rightarrow> error option) \<Rightarrow> entry list \<times> log
   \<Rightarrow> ((entry list \<times> log) \<times> (error + nat)) option" where
  "ingest_docs cfg md5 docs embed_content rejects count_fails st =
     (case st of (collection0, lg0) \<Rightarrow>
        (let lg1 = lg0 @ [(INFO, ''Starting document ingestion...'')];
             collection = clear collection0
         in if \<not> docs_path_exists docs then
              Some ((collection, lg1),
                    Inl (ValueError (''Documentation path does not exist: '' @ docs_path docs)))
            else
              (let lg2 = lg1 @ [(INFO, ''Found '' @ str_nat (length (md_files docs))
                                       @ '' markdown files'')]
               in case files_loop cfg md5 (parse_markdown_file docs) (md_files docs) ([], lg2) of
                    None \<Rightarrow> None
                  | Some (all_chunks, lg3) \<Rightarrow>
                      if all_chunks = [] then
                        Some ((collection, lg3 @ [(WARNING, ''No chunks created from documents'')]),
                              Inr 0)
                      else
                        (case embed_chunks embed_content all_chunks
                                (lg3 @ [(INFO, ''Total chunks created: ''
                                               @ str_nat (length all_chunks))]) of
                           (lg4, Inl e) \<Rightarrow> Some ((collection, lg4), Inl e)
                         | (lg4, Inr embedded) \<Rightarrow>
                             (case add_chunks rejects embedded collection of
                                Inl e \<Rightarrow> Some ((collection, lg4), Inl e)
                              | Inr collection' \<Rightarrow>
                                  (case count count_fails collection' of
                                     Inl e \<Rightarrow> Some ((collection', lg4), Inl e)
                                   | Inr n \<Rightarrow>
                                       Some ((collection',
                                              lg4 @ [(INFO, ''Ingestion complete. Total chunks in store: ''
                                                            @ str_nat n)]),
                                             Inr (length embedded))))))))"

section \<open>Searching the vector store (rag/vector\_store.py)\<close>

text \<open>
  \<^verbatim>\<open>score = max(0.0, 1.0 - distance)\<close> in \<^verbatim>\<open>VectorStore.search\<close>. Python floats are
  modelled as reals. Python's \<^verbatim>\<open>max(a, b)\<close> returns \<open>b\<close> when \<open>b > a\<close> and \<open>a\<close>
  otherwise.
\<close>

definition py_max :: "real \<Rightarrow> real \<Rightarrow> real" where
  "py_max a b = (if b > a then b else a)"

definition score_of_distance :: "real \<Rightarrow> real" where
  "score_of_distance distance = py_max 0.0 (1.0 - distance)"

text \<open>\<^verbatim>\<open>RetrievedChunk\<close> of rag/models.py (its fields carry the prefix \<open>r_\<close> here).\<close>

record RetrievedChunk =
  r_doc_path :: string
  r_title :: string
  r_text :: string
  r_score :: real
  r_metadata :: "(string \<times> string) list"

text \<open>
  The dictionary that \<^verbatim>\<open>collection.query\<close> returns. A key may be absent or hold
  \<^verbatim>\<open>None\<close> (\<open>None\<close> here); a metadata or a document of a result may be \<^verbatim>\<open>None\<close> as well.
\<close>

record query_result =
  ids :: "string list list option"
  metadatas :: "(string \<times> string) list option list list option"
  documents :: "string option list list option"
  distances :: "real list list option"





section \<open>The retriever (rag/retriever.py)\<close>

text \<open>
  \<^verbatim>\<open>QueryResult\<close> and the two fields of \<^verbatim>\<open>ChatMessage\<close> (rag/models.py) that the
  retriever reads.
\<close>

record QueryResult =
  answer :: string
  result_chunks :: "RetrievedChunk list"
  query_text :: string

record ChatMessage =
  role :: string
  content :: string


text \<open>
  The loop over the conversation history. Every \<^verbatim>\<open>ChatMessage\<close> has a role and a
  content, so the \<^verbatim>\<open>hasattr\<close> test holds and the loop raises nothing.
\<close>

fun history_parts :: "ChatMessage list \<Rightarrow> string list" where
  "history_parts [] = []"
| "history_parts (msg # rest) =
     (if role msg = ''user'' then
        (let c = (if length (content msg) > 500 then take 500 (content msg) else content msg)
         in (''Q: '' @ c) # history_parts rest)
      else if role msg = ''assistant'' then
        (let c = (if length (content msg) > 500 then take 500 (content msg) else content msg)
         in (''A: '' @ c) # history_parts rest)
      else history_parts rest)"

definition history_text :: "ChatMessage list option \<Rightarrow> string" where
  "history_text conversation_history =
     (case conversation_history of
        None \<Rightarrow> []
      | Some msgs \<Rightarrow>
          if msgs \<noteq> [] \<and> length msgs > 0 then
            (let parts = history_parts msgs
             in if parts \<noteq> []
                then [nl, nl] @ ''PREVIOUS CONVERSATION:'' @ [nl] @ join [nl] parts @ [nl]
                else [])
          else [])"

text \<open>The text of the template before the history block, line by line.\<close>

definition prompt_preamble :: string where
  "prompt_preamble = concat (map (\<lambda>line. line @ [nl])
     [''You are a helpful documentation assistant. Your job is to answer questions based on the provided documentation context.'',
      [],
      ''IMPORTANT INSTRUCTIONS:'',
      ''1. Use the previous conversation to understand context and what the user is referring to'',
      ''2. When the user asks about previous messages (e.g., '' @ [CHR 0x22] @ ''What did I say?''
        @ [CHR 0x22] @ ''), you CAN refer to the conversation history'',
      ''3. For questions about the documentation content, answer using information from the provided documentation context'',
      ''4. You MUST cite which documentation sources you used in your answer (reference by document title)'',
      ''5. If the documentation doesn'' @ [CHR 0x27] @ ''t contain enough information to answer a question about documentation, say so clearly'',
      ''6. Be concise but thorough'',
      ''7. Use a professional and helpful tone'',
      ''8. Format your answer clearly with bullet points or paragraphs as appropriate''])"

definition build_prompt ::
  "string \<Rightarrow> string \<Rightarrow> RetrievedChunk list \<Rightarrow> ChatMessage list option \<Rightarrow> string" where
  "build_prompt question context chunks conversation_history =
     (let source_list = join [nl] (map (\<lambda>chunk. ''- '' @ r_title chunk @ '' (from ''
                                                  @ r_doc_path chunk @ '')'') chunks)
      in prompt_preamble @ history_text conversation_history @ [nl]
         @ ''CONTEXT FROM DOCUMENTATION:'' @ [nl] @ context @ [nl, nl]
         @ ''AVAILABLE SOURCES:'' @ [nl] @ source_list @ [nl, nl]
         @ ''CURRENT QUESTION: '' @ question @ [nl, nl]
         @ ''ANSWER (cite documentation sources when using them):'')"

text \<open>
  The collaborators of a query: the embedding of the question, the count and the query of
  the database, and the answer generator
  (\<^verbatim>\<open>LLMFactory.create_provider(model_key).generate(prompt)\<close>).
\<close>

record services =
  embed_query :: "string \<Rightarrow> error + real list"
  count_fails :: "entry list \<Rightarrow> error option"
  chroma_query :: "entry list \<Rightarrow> real list \<Rightarrow> int \<Rightarrow> error + query_result"
  generate :: "string option \<Rightarrow> string \<Rightarrow> error + string"



section \<open>The chunker and the prompt in the words of the specification\<close>

text \<open>A word is a non-empty string without white space.\<close>

definition is_word :: "string \<Rightarrow> bool" where
  "is_word w = (w \<noteq> [] \<and> (\<forall>c \<in> set w. \<not> is_space c))"

text \<open>
  The sliding window in the words of the specification: a window of \<open>sz\<close> words, then
  the next window \<open>stride\<close> words further, as long as words are left after a window.
\<close>

function sliding_windows :: "'a list \<Rightarrow> nat \<Rightarrow> nat \<Rightarrow> 'a list list" where
  "sliding_windows ws sz stride =
     (if ws = [] \<or> stride = 0 then []
      else take sz ws # (if length ws \<le> sz then [] else sliding_windows (drop stride ws) sz stride))"
  by pat_completeness auto
termination
  by (relation "measure (\<lambda>(ws, sz, stride). length ws)") auto

declare sliding_windows.simps [simp del]

text \<open>
  A document with headers is the text before the first header and then the pairs of a
  header and the text that follows it. \<open>pairs\<close> takes the elements of a list two by two.
\<close>

fun pairs :: "'a list \<Rightarrow> ('a \<times> 'a) list" where
  "pairs (h # b # rest) = (h, b) # pairs rest"
| "pairs [x] = []"
| "pairs [] = []"

text \<open>The title of a section, and the normalized text of the title and the body.\<close>

definition section_title_of :: "string \<Rightarrow> string" where
  "section_title_of hdr = re_sub_start heading_marker_pattern (\<lambda>g. []) (strip hdr)"

definition section_text :: "string \<Rightarrow> string \<Rightarrow> string" where
  "section_text hdr body = clean_markdown (section_title_of hdr @ [nl, nl] @ body)"

text \<open>
  What a part of the document gives: nothing, one chunk with its whole text, or one chunk
  for each window of a re-split. A piece is that together with the title of the section
  (\<open>None\<close> for the text outside the sections).
\<close>

datatype emission = Nothing | Whole string | Windows "string list"

type_synonym piece = "string option \<times> emission"

fun emission_texts :: "emission \<Rightarrow> string list" where
  "emission_texts Nothing = []"
| "emission_texts (Whole s) = [s]"
| "emission_texts (Windows subs) = subs"

text \<open>
  The text before the first header is emitted when it has more than 50 characters; a
  document without a header is emitted when its text is not empty.
\<close>

definition lead_piece :: "string \<Rightarrow> piece" where
  "lead_piece lead =
     (None, if strip lead \<noteq> [] \<and> 50 < length (clean_markdown lead)
            then Whole (clean_markdown lead) else Nothing)"

definition headerless_piece :: "string \<Rightarrow> piece" where
  "headerless_piece doc =
     (None, if clean_markdown doc \<noteq> [] then Whole (clean_markdown doc) else Nothing)"

text \<open>
  A section with more characters than the maximum is re-split; \<open>None\<close> is the re-split
  that does not return. Another section is emitted whole when it has more than 50
  characters.
\<close>

definition section_piece :: "settings \<Rightarrow> string \<times> string \<Rightarrow> piece option" where
  "section_piece cfg section =
     (case section of (hdr, body) \<Rightarrow>
        if chunk_size cfg < int (length (section_text hdr body)) then
          (case chunk_by_size (section_text hdr body) (chunk_size cfg) (chunk_overlap cfg) of
             None \<Rightarrow> None
           | Some subs \<Rightarrow> Some (Some (section_title_of hdr), Windows subs))
        else if 50 < length (section_text hdr body) then
          Some (Some (section_title_of hdr), Whole (section_text hdr body))
        else Some (Some (section_title_of hdr), Nothing))"

fun all_some :: "('a \<Rightarrow> 'b option) \<Rightarrow> 'a list \<Rightarrow> 'b list option" where
  "all_some f [] = Some []"
| "all_some f (x # xs) =
     (case f x of
        None \<Rightarrow> None
      | Some y \<Rightarrow> (case all_some f xs of None \<Rightarrow> None | Some ys \<Rightarrow> Some (y # ys)))"

definition document_pieces :: "settings \<Rightarrow> string \<Rightarrow> piece list option" where
  "document_pieces cfg doc =
     (case re_split header_pattern doc of
        [] \<Rightarrow> Some []
      | [whole] \<Rightarrow> Some [headerless_piece doc]
      | lead # rest \<Rightarrow>
          (case all_some (section_piece cfg) (pairs rest) of
             None \<Rightarrow> None
           | Some ps \<Rightarrow> Some (lead_piece lead # ps)))"

text \<open>
  The keys. \<open>n\<close> is the ordinal: the number of chunks emitted before. A chunk emitted whole
  has the key \<^verbatim>\<open>{doc_path}:{n}\<close>; window \<open>j\<close> of a re-split section has the key
  \<^verbatim>\<open>{doc_path}:{n + j}:{j}\<close>, since the windows before it have been emitted too.
\<close>

fun emission_keys :: "string \<Rightarrow> nat \<Rightarrow> emission \<Rightarrow> string list" where
  "emission_keys path n Nothing = []"
| "emission_keys path n (Whole s) = [path @ '':'' @ str_nat n]"
| "emission_keys path n (Windows subs) =
     map (\<lambda>j. path @ '':'' @ str_nat (n + j) @ '':'' @ str_nat j) [0..<length subs]"

fun piece_keys :: "string \<Rightarrow> nat \<Rightarrow> piece list \<Rightarrow> string list" where
  "piece_keys path n [] = []"
| "piece_keys path n (p # ps) =
     emission_keys path n (snd p) @ piece_keys path (n + length (emission_texts (snd p))) ps"

text \<open>
  The chunks of a piece and of a list of pieces: a chunk for each key and text, with the
  title of the document, followed by that of the section where there is one.
\<close>

definition piece_chunks ::
  "(string \<Rightarrow> string) \<Rightarrow> string \<Rightarrow> string \<Rightarrow> nat \<Rightarrow> piece \<Rightarrow> DocumentChunk list" where
  "piece_chunks md5 path ttl n p =
     map (\<lambda>(key, s). new_chunk md5 key path
                         (case fst p of None \<Rightarrow> ttl | Some st \<Rightarrow> ttl @ '' - '' @ st) s
                         (case fst p of None \<Rightarrow> ttl | Some st \<Rightarrow> st))
         (zip (emission_keys path n (snd p)) (emission_texts (snd p)))"

fun numbered ::
  "(string \<Rightarrow> string) \<Rightarrow> string \<Rightarrow> string \<Rightarrow> nat \<Rightarrow> piece list \<Rightarrow> DocumentChunk list" where
  "numbered md5 path ttl n [] = []"
| "numbered md5 path ttl n (p # ps) =
     piece_chunks md5 path ttl n p
     @ numbered md5 path ttl (n + length (emission_texts (snd p))) ps"

text \<open>
  The texts that a section gives when the re-split returns, with the sliding window in the
  words of the specification.
\<close>

definition section_texts :: "settings \<Rightarrow> string \<times> string \<Rightarrow> string list" where
  "section_texts cfg section =
     (case section of (hdr, body) \<Rightarrow>
        if chunk_size cfg < int (length (section_text hdr body)) then
          map (join '' '')
            (sliding_windows (split_ws (section_text hdr body)) (nat (chunk_size cfg))
               (nat (chunk_size cfg - chunk_overlap cfg)))
        else if 50 < length (section_text hdr body) then [section_text hdr body]
        else [])"

text \<open>
  The history block in the words of the specification: a message of the role \<^verbatim>\<open>user\<close> is
  rendered as \<^verbatim>\<open>Q: \<close> and one of the role \<^verbatim>\<open>assistant\<close> as \<^verbatim>\<open>A: \<close>, each with the first
  500 characters of its content; the other messages are left out.
\<close>

definition render_message :: "ChatMessage \<Rightarrow> string" where
  "render_message m = (if role m = ''user'' then ''Q: '' else ''A: '') @ take 500 (content m)"

definition rendered_history :: "ChatMessage list option \<Rightarrow> string list" where
  "rendered_history conversation_history =
     map render_message
       (filter (\<lambda>m. role m = ''user'' \<or> role m = ''assistant'')
          (case conversation_history of None \<Rightarrow> [] | Some msgs \<Rightarrow> msgs))"

text \<open>Inputs at which the theorems are evaluated.\<close>

definition small_windows :: settings where
  "small_windows = \<lparr>chunk_size = 3, chunk_overlap = 1, top_k_results = 5\<rparr>"

definition ten_characters :: settings where
  "ten_characters = \<lparr>chunk_size = 10, chunk_overlap = 2, top_k_results = 5\<rparr>"

definition sample_entry :: entry where
  "sample_entry = \<lparr>entry_id = ''k'', entry_embedding = Some [1], entry_document = ''old text'',
                    entry_metadata = [(''doc_path'', ''a.md''), (''title'', ''A''), (''section'', ''A'')]\<rparr>"


definition two_files :: corpus where
  "two_files = \<lparr>docs_path = ''/srv/docs'', docs_path_exists = True,
                 md_files = [''/srv/docs/a.md'', ''/srv/docs/b.md''],
                 parse_markdown_file =
                   (\<lambda>f. if f = ''/srv/docs/a.md'' then Inr (''a.md'', ''A'', ''Alpha'')
                        else Inr (''b.md'', ''B'', ''Beta''))\<rparr>"

definition fails_on_beta :: "string \<Rightarrow> error + real list" where
  "fails_on_beta s = (if s = ''Beta'' then Inl (Failure ''quota exceeded'') else Inr [1])"



definition sample_history :: "ChatMessage list" where
  "sample_history = [\<lparr>role = ''user'', content = replicate 501 CHR ''a''\<rparr>,
                     \<lparr>role = ''system'', content = ''be brief''\<rparr>,
                     \<lparr>role = ''assistant'', content = ''ok''\<rparr>]"

definition sample_doc :: string where
  "sample_doc = ''# Main Title\<newline>\<newline>Intro.\<newline>\<newline>## Section 1\<newline>\<newline>The first section explains how the service is installed.\<newline>\<newline>## Section 2\<newline>\<newline>The second section explains how the service is operated.\<newline>''"

text \<open>The document of \<^verbatim>\<open>test_chunk_by_headers\<close> (tests/test\_ingestion.py).\<close>

definition test_document :: string where
  "test_document = ''# Main Title\<newline>\<newline>This is intro content.\<newline>\<newline>## Section 1\<newline>\<newline>Content for section 1.\<newline>\<newline>## Section 2\<newline>\<newline>Content for section 2.\<newline>''"


section \<open>Facts about the string functions\<close>

lemmas re_defs =
  re_sub_def re_sub_start_def re_split_def re_match_def all_matches_def counts_def
  strip_def is_space_def nl_def
  html_tag_pattern_def link_pattern_def code_fence_pattern_def inline_code_pattern_def
  heading_marker_pattern_def bold_pattern_def italic_pattern_def blank_lines_pattern_def
  header_pattern_def

lemma split_words_are_words:
  "\<forall>c \<in> set acc. \<not> is_space c \<Longrightarrow> \<forall>w \<in> set (split_words acc s). is_word w"
proof (induction s arbitrary: acc)
  case Nil
  then show ?case by (simp add: is_word_def)
next
  case (Cons a s)
  have nil: "\<forall>w \<in> set (split_words [] s). is_word w"
    by (rule Cons.IH) simp
  show ?case
  proof (cases "is_space a")
    case True
    then show ?thesis using nil Cons.prems by (simp add: is_word_def)
  next
    case False
    then have "\<forall>w \<in> set (split_words (acc @ [a]) s). is_word w"
      using Cons.prems by (intro Cons.IH) simp
    then show ?thesis using False by simp
  qed
qed

lemma split_ws_are_words: "\<forall>w \<in> set (split_ws s). is_word w"
  unfolding split_ws_def by (rule split_words_are_words) simp

lemma split_words_no_space:
  "\<forall>c \<in> set w. \<not> is_space c \<Longrightarrow> split_words acc (w @ s) = split_words (acc @ w) s"
  by (induction w arbitrary: acc) auto

lemma space_is_space: "is_space CHR '' ''"
  by (simp add: is_space_def)

lemma split_words_join:
  "\<forall>w \<in> set ws. is_word w \<Longrightarrow> is_word acc \<or> (acc = [] \<and> ws \<noteq> []) \<Longrightarrow>
   split_words acc (join '' '' ws) = (if ws = [] then [acc] else (acc @ hd ws) # tl ws)"
proof (induction "'' ''" ws arbitrary: acc rule: join.induct)
  case 1
  then show ?case by (auto simp: is_word_def)
next
  case (2 x)
  then show ?case
    using split_words_no_space [of x acc "[]"] by (auto simp: is_word_def)
next
  case (3 x y ys)
  have x: "\<forall>c \<in> set x. \<not> is_space c" "x \<noteq> []"
    using 3(2) by (auto simp: is_word_def)
  have "split_words acc (join '' '' (x # y # ys))
        = split_words (acc @ x) ('' '' @ join '' '' (y # ys))"
    using split_words_no_space [OF x(1)] by simp
  also have "\<dots> = (acc @ x) # split_words [] (join '' '' (y # ys))"
    using x(2) by (simp add: space_is_space)
  also have "split_words [] (join '' '' (y # ys)) = y # ys"
    using 3(1) [of "[]"] 3(2) by simp
  finally show ?case by simp
qed

text \<open>Joining words with a blank and splitting again gives the words back.\<close>

lemma split_ws_join: "\<forall>w \<in> set ws. is_word w \<Longrightarrow> split_ws (join '' '' ws) = ws"
  using split_words_join [of ws "[]"] by (cases ws) (auto simp: split_ws_def)

text \<open>A slice from a start that is not negative is a \<open>take\<close> of a \<open>drop\<close>.\<close>

lemma py_slice_window:
  "0 \<le> start \<Longrightarrow> 0 \<le> sz \<Longrightarrow>
   py_slice xs start (start + sz) = take (nat sz) (drop (nat start) xs)"
proof -
  assume a: "0 \<le> start" "0 \<le> sz"
  let ?n = "int (length xs)"
  show ?thesis
  proof (cases "start < ?n")
    case False
    then show ?thesis using a by (simp add: py_slice_def Let_def min_def)
  next
    case True
    show ?thesis
    proof (cases "start + sz \<le> ?n")
      case True
      then show ?thesis using a \<open>start < ?n\<close> by (simp add: py_slice_def Let_def min_def)
    next
      case False
      then have "nat (?n - start) \<le> nat sz" "length (drop (nat start) xs) = nat (?n - start)"
        using a by auto
      then show ?thesis using a False \<open>start < ?n\<close>
        by (simp add: py_slice_def Let_def min_def)
    qed
  qed
qed

section \<open>The sliding window\<close>

text \<open>
  With \<open>0 \<le> overlap < sz\<close> the loop returns from every start that is not negative: the
  distance from the start to the end of the words shrinks in every round. What it returns
  are the chunks it was given and windows of at most \<open>sz\<close> words.
\<close>

lemma chunk_by_size_loop_returns:
  assumes "0 \<le> overlap" "overlap < sz"
  shows "0 \<le> start \<Longrightarrow> \<exists>r. chunk_by_size_loop words sz overlap start chunks = Some r \<and>
      set r \<subseteq> set chunks \<union> {join '' '' (take (nat sz) (drop k words)) | k. True}"
proof (induction "nat (int (length words) - start)" arbitrary: start chunks rule: less_induct)
  case less
  show ?case
  proof (cases "start < int (length words)")
    case False
    then show ?thesis by (subst chunk_by_size_loop.simps) auto
  next
    case True
    let ?c = "join '' '' (py_slice words start (start + sz))"
    have "?c = join '' '' (take (nat sz) (drop (nat start) words))"
      using py_slice_window [of start sz words] less.prems assms by simp
    then have c: "?c \<in> {join '' '' (take (nat sz) (drop k words)) | k. True}"
      by blast
    show ?thesis
    proof (cases "start + sz \<ge> int (length words)")
      case True
      with \<open>start < int (length words)\<close> show ?thesis
        using c by (subst chunk_by_size_loop.simps) (simp add: Let_def)
    next
      case False
      have "nat (int (length words) - (start + sz - overlap)) < nat (int (length words) - start)"
        using assms True by linarith
      moreover have "0 \<le> start + sz - overlap"
        using assms less.prems by linarith
      ultimately obtain r where
        r: "chunk_by_size_loop words sz overlap (start + sz - overlap) (chunks @ [?c]) = Some r"
           "set r \<subseteq> set (chunks @ [?c]) \<union> {join '' '' (take (nat sz) (drop k words)) | k. True}"
        using less.hyps by blast
      have "chunk_by_size_loop words sz overlap start chunks = Some r"
        using True False r(1) by (subst chunk_by_size_loop.simps) (simp add: Let_def)
      moreover have "set r \<subseteq> set chunks \<union> {join '' '' (take (nat sz) (drop k words)) | k. True}"
        using r(2) c by auto
      ultimately show ?thesis by blast
    qed
  qed
qed

lemma chunk_by_size_returns:
  assumes "0 \<le> overlap" "overlap < sz"
  shows "\<exists>r. chunk_by_size s sz overlap = Some r \<and>
             (\<forall>w \<in> set r. int (length (split_ws w)) \<le> sz)"
proof -
  obtain r where r: "chunk_by_size_loop (split_ws s) sz overlap 0 [] = Some r"
      "set r \<subseteq> set [] \<union> {join '' '' (take (nat sz) (drop k (split_ws s))) | k. True}"
    using chunk_by_size_loop_returns [OF assms, of 0 "split_ws s" "[]"] by auto
  have "int (length (split_ws w)) \<le> sz" if "w \<in> set r" for w
  proof -
    from r(2) that have "w \<in> {join '' '' (take (nat sz) (drop k (split_ws s))) | k. True}"
      by auto
    then obtain k where w: "w = join '' '' (take (nat sz) (drop k (split_ws s)))"
      by blast
    have "\<forall>v \<in> set (take (nat sz) (drop k (split_ws s))). is_word v"
      using split_ws_are_words [of s] by (meson in_set_dropD in_set_takeD)
    then have "split_ws w = take (nat sz) (drop k (split_ws s))"
      unfolding w by (rule split_ws_join)
    then show ?thesis using assms by simp
  qed
  then show ?thesis using r(1) by (auto simp: chunk_by_size_def)
qed

lemma chunk_by_size_loop_stride:
  assumes "0 \<le> start" "0 \<le> sz" "start + sz < int (length words)"
  shows "chunk_by_size_loop words sz overlap start chunks =
         chunk_by_size_loop words sz overlap (start + (sz - overlap))
           (chunks @ [join '' '' (take (nat sz) (drop (nat start) words))])"
  using assms py_slice_window [of start sz words]
  by (subst chunk_by_size_loop.simps) (simp add: Let_def algebra_simps)

text \<open>
  Without the bound the loop need not return: with a size and an overlap of 1, every round
  on two words starts at the same index.
\<close>

lemma chunk_by_size_loop_never:
  assumes "chunk_by_size_loop words sz overlap start chunks = Some r"
  shows "\<not> (words = [''a'', ''b''] \<and> sz = 1 \<and> overlap = 1 \<and> start = 0)"
  using assms
proof (induction rule: chunk_by_size_loop.raw_induct [rotated 1, consumes 1])
  case (1 loop words sz overlap start chunks r)
  show ?case
  proof
    assume a: "words = [''a'', ''b''] \<and> sz = 1 \<and> overlap = 1 \<and> start = 0"
    then have "loop words sz overlap start (chunks @ [join '' '' (py_slice words start (start + sz))]) = Some r"
      using 1(2) by (simp add: Let_def)
    then show False using 1(1) a by blast
  qed
qed

lemma chunk_by_size_diverges: "chunk_by_size ''a b'' 1 1 = None"
proof (cases "chunk_by_size ''a b'' 1 1")
  case None
  then show ?thesis .
next
  case (Some r)
  then have "chunk_by_size_loop [''a'', ''b''] 1 1 0 [] = Some r"
    by (simp add: chunk_by_size_def split_ws_def is_space_def)
  then show ?thesis using chunk_by_size_loop_never by blast
qed

text \<open>
  C10. For every text and every window size and overlap with \<open>0 \<le> overlap < sz\<close>,
  \<open>chunk_by_size\<close> returns, and every window that it returns has at most \<open>sz\<close> words.
  While words are left after a window, the next round starts \<open>sz - overlap\<close> words further,
  which is a strictly larger index.
\<close>

theorem chunk_by_size_total:
  assumes "0 \<le> overlap" "overlap < sz"
  shows "(\<exists>r. chunk_by_size s sz overlap = Some r \<and>
              (\<forall>w \<in> set r. int (length (split_ws w)) \<le> sz))
       \<and> (0 \<le> start \<and> start + sz < int (length words) \<longrightarrow>
            start < start + (sz - overlap) \<and>
            chunk_by_size_loop words sz overlap start chunks =
            chunk_by_size_loop words sz overlap (start + (sz - overlap))
              (chunks @ [join '' '' (take (nat sz) (drop (nat start) words))]))"
  using assms chunk_by_size_returns [OF assms, of s]
    chunk_by_size_loop_stride [of start sz words overlap chunks]
  by auto

theorem chunk_by_size_total_witness:
  "(0::int) \<le> 1 \<and> (1::int) < 3
   \<and> chunk_by_size ''a b c d e f g'' 3 1 = Some [''a b c'', ''c d e'', ''e f g'']
   \<and> int (length (split_ws ''a b c'')) \<le> 3 \<and> int (length (split_ws ''c d e'')) \<le> 3
   \<and> int (length (split_ws ''e f g'')) \<le> 3
   \<and> (0::int) \<le> 0 \<and> (0::int) + 3 < int (length [''a'', ''b'', ''c'', ''d''])
   \<and> chunk_by_size_loop [''a'', ''b'', ''c'', ''d''] 3 1 0 [] =
      chunk_by_size_loop [''a'', ''b'', ''c'', ''d''] 3 1 2 [''a b c'']"
  using chunk_by_size_total [of 1 3 "''a b c d e f g''" 0 "[''a'', ''b'', ''c'', ''d'']" "[]"]
  by (simp add: chunk_by_size_def split_ws_def is_space_def chunk_by_size_loop.simps
        py_slice_def)

section \<open>The chunker: the document without headers\<close>

text \<open>
  C1 (the code at the input of the repository's own test \<^verbatim>\<open>test_chunk_minimum_length\<close>).
  The document \<^verbatim>\<open>"Short"\<close> has no header, so the chunker takes the branch for one section,
  which tests only that the cleaned text is not empty: it returns one chunk, of five
  characters. The test and the specification expect no chunk.
\<close>

theorem chunk_by_headers_short:
  "chunk_by_headers default_settings md5 ''Short'' ''test.md'' ''Test'' =
     Some [\<lparr>chunk_id = md5 ''test.md:0'', doc_path = ''test.md'', title = ''Test'',
            chunk_text = ''Short'', embedding = None, metadata = [(''section'', ''Test'')]\<rparr>]"
  by (simp add: chunk_by_headers_def clean_markdown_def new_chunk_def re_defs)

section \<open>The chunker numbers the pieces of the document\<close>

text \<open>
  The loops of \<open>chunk_by_headers\<close>, which build the keys from the length of the list of
  chunks, give the pieces of the document numbered from 0: no chunk comes from anything
  but a piece, and the key of each chunk is the one of its place.
\<close>

lemma split_from_odd: "odd (length (split_from p k seg s))"
  by (induction p k seg s rule: split_from.induct) (auto split: option.splits)

lemma re_split_odd: "odd (length (re_split p s))"
  by (simp add: re_split_def split_from_odd)

lemma str_nat_0: "str_nat 0 = ''0''"
  by (simp add: str_nat.simps)

lemma emission_keys_length: "length (emission_keys path n e) = length (emission_texts e)"
  by (cases e) simp_all

lemma piece_chunks_length: "length (piece_chunks md5 path ttl n p) = length (emission_texts (snd p))"
  by (simp add: piece_chunks_def emission_keys_length)

lemma flush_current_text_piece:
  "flush_current_text md5 path ttl ttl cur chunks =
     chunks @ piece_chunks md5 path ttl (length chunks) (lead_piece cur)"
  by (simp add: flush_current_text_def lead_piece_def piece_chunks_def Let_def)

lemma append_sub_chunks_windows:
  "append_sub_chunks md5 path ttl st j subs chunks =
     chunks @ map (\<lambda>i. new_chunk md5 (path @ '':'' @ str_nat (length chunks + i) @ '':''
                                       @ str_nat (j + i)) path (ttl @ '' - '' @ st) (subs ! i) st)
                  [0..<length subs]"
proof (induction subs arbitrary: j chunks)
  case Nil
  then show ?case by simp
next
  case (Cons s subs)
  have "[0..<Suc (length subs)] = 0 # map Suc [0..<length subs]"
    by (metis map_Suc_upt upt_conv_Cons zero_less_Suc)
  then show ?case
    by (simp add: Cons.IH comp_def del: upt_Suc)
qed

lemma zip_upt_nth: "zip [0..<length xs] xs = map (\<lambda>i. (i, xs ! i)) [0..<length xs]"
  by (rule nth_equalityI) auto

lemma windows_piece_chunks:
  "piece_chunks md5 path ttl n (Some st, Windows subs) =
     map (\<lambda>i. new_chunk md5 (path @ '':'' @ str_nat (n + i) @ '':'' @ str_nat i) path
                   (ttl @ '' - '' @ st) (subs ! i) st)
         [0..<length subs]"
  by (simp add: piece_chunks_def zip_map1 zip_upt_nth comp_def)

lemma whole_piece_chunks:
  "piece_chunks md5 path ttl n (Some st, Whole s) =
     [new_chunk md5 (path @ '':'' @ str_nat n) path (ttl @ '' - '' @ st) s st]"
  by (simp add: piece_chunks_def)

lemma nothing_piece_chunks: "piece_chunks md5 path ttl n (label, Nothing) = []"
  by (simp add: piece_chunks_def)

lemma section_step_unfold:
  "section_step cfg md5 path ttl hdr body (chunks0, cur) =
     (if chunk_size cfg < int (length (section_text hdr body)) then
        (case chunk_by_size (section_text hdr body) (chunk_size cfg) (chunk_overlap cfg) of
           None \<Rightarrow> None
         | Some subs \<Rightarrow>
             Some (append_sub_chunks md5 path ttl (section_title_of hdr) 0 subs
                     (flush_current_text md5 path ttl ttl cur chunks0), []))
      else if 50 < length (section_text hdr body) then
        Some (flush_current_text md5 path ttl ttl cur chunks0
              @ [new_chunk md5
                   (path @ '':'' @ str_nat (length (flush_current_text md5 path ttl ttl cur chunks0)))
                   path (ttl @ '' - '' @ section_title_of hdr) (section_text hdr body)
                   (section_title_of hdr)], [])
      else Some (flush_current_text md5 path ttl ttl cur chunks0, []))"
proof -
  have "(section_text hdr body \<noteq> [] \<and> 50 < length (section_text hdr body))
        = (50 < length (section_text hdr body))"
    by auto
  then show ?thesis
    by (simp add: section_step_def section_text_def section_title_of_def Let_def
          split: option.splits)
qed

lemma section_step_piece:
  "section_step cfg md5 path ttl hdr body (chunks, cur) =
     (case section_piece cfg (hdr, body) of
        None \<Rightarrow> None
      | Some p \<Rightarrow>
          Some (chunks @ numbered md5 path ttl (length chunks) [lead_piece cur, p], []))"
proof -
  let ?f = "flush_current_text md5 path ttl ttl cur chunks"
  let ?n = "length chunks + length (emission_texts (snd (lead_piece cur)))"
  have f: "?f = chunks @ piece_chunks md5 path ttl (length chunks) (lead_piece cur)"
    by (rule flush_current_text_piece)
  have n: "length ?f = ?n"
    by (simp add: f piece_chunks_length)
  have two: "chunks @ numbered md5 path ttl (length chunks) [lead_piece cur, p]
             = ?f @ piece_chunks md5 path ttl ?n p" for p
    by (simp add: f)
  show ?thesis
  proof (cases "chunk_size cfg < int (length (section_text hdr body))")
    case True
    show ?thesis
    proof (cases "chunk_by_size (section_text hdr body) (chunk_size cfg) (chunk_overlap cfg)")
      case None
      then show ?thesis using True
        by (simp add: section_step_unfold section_piece_def)
    next
      case (Some subs)
      have "append_sub_chunks md5 path ttl (section_title_of hdr) 0 subs ?f =
          ?f @ piece_chunks md5 path ttl ?n (Some (section_title_of hdr), Windows subs)"
        by (simp only: append_sub_chunks_windows windows_piece_chunks n add_0)
      then show ?thesis using True Some
        by (simp only: section_step_unfold section_piece_def two if_True option.case prod.case)
    qed
  next
    case False
    show ?thesis
    proof (cases "50 < length (section_text hdr body)")
      case True
      then show ?thesis using False
        by (simp only: section_step_unfold section_piece_def two if_True if_False option.case
              prod.case whole_piece_chunks n)
    next
      case F: False
      then show ?thesis using False
        by (simp only: section_step_unfold section_piece_def two if_False option.case
              prod.case nothing_piece_chunks append_Nil2)
    qed
  qed
qed

lemma lead_piece_Nil: "lead_piece [] = (None, Nothing)"
  by (simp add: lead_piece_def strip_def)

lemma sections_loop_pieces:
  "even (length secs) \<Longrightarrow> secs \<noteq> [] \<Longrightarrow>
   sections_loop cfg md5 path ttl secs (chunks, cur) =
     (case all_some (section_piece cfg) (pairs secs) of
        None \<Rightarrow> None
      | Some ps \<Rightarrow>
          Some (chunks @ numbered md5 path ttl (length chunks) (lead_piece cur # ps), []))"
proof (induction secs arbitrary: chunks cur rule: pairs.induct)
  case (1 h b rest)
  show ?case
  proof (cases "section_piece cfg (h, b)")
    case None
    then show ?thesis by (simp add: section_step_piece)
  next
    case (Some p)
    let ?c1 = "chunks @ numbered md5 path ttl (length chunks) [lead_piece cur, p]"
    have step: "section_step cfg md5 path ttl h b (chunks, cur) = Some (?c1, [])"
      using Some by (simp add: section_step_piece)
    show ?thesis
    proof (cases "rest = []")
      case True
      then show ?thesis using step Some by simp
    next
      case False
      have ev: "even (length rest)" using 1(2) by simp
      have "sections_loop cfg md5 path ttl rest (?c1, []) =
          (case all_some (section_piece cfg) (pairs rest) of
             None \<Rightarrow> None
           | Some ps \<Rightarrow>
               Some (?c1 @ numbered md5 path ttl (length ?c1) (lead_piece [] # ps), []))"
        using 1(1) [OF ev False] .
      then show ?thesis using step Some
        by (simp add: lead_piece_Nil nothing_piece_chunks piece_chunks_length add.assoc
              split: option.splits)
    qed
  qed
next
  case (2 x)
  then show ?case by simp
next
  case 3
  then show ?case by simp
qed

lemma flush_Nil: "flush_current_text md5 path ttl section [] chunks = chunks"
  by (simp add: flush_current_text_def strip_def)

lemma headerless_chunks:
  "piece_chunks md5 path ttl 0 (headerless_piece doc) =
     (if clean_markdown doc \<noteq> []
      then [new_chunk md5 (path @ '':0'') path ttl (clean_markdown doc) ttl] else [])"
  by (simp add: headerless_piece_def piece_chunks_def str_nat_0)


lemma chunk_by_headers_pieces:
  "chunk_by_headers cfg md5 doc path ttl =
     (case document_pieces cfg doc of
        None \<Rightarrow> None
      | Some ps \<Rightarrow> Some (numbered md5 path ttl 0 ps))"
proof (cases "re_split header_pattern doc")
  case Nil
  then show ?thesis using re_split_odd [of header_pattern doc] by simp
next
  case (Cons lead rest)
  show ?thesis
  proof (cases "rest = []")
    case True
    then show ?thesis using Cons
      by (simp add: chunk_by_headers_def document_pieces_def headerless_chunks Let_def)
  next
    case False
    have ev: "even (length rest)"
      using re_split_odd [of header_pattern doc] Cons by simp
    have len: "length (re_split header_pattern doc) \<noteq> 1"
      using Cons False by (cases rest) auto
    have dp: "document_pieces cfg doc =
         (case all_some (section_piece cfg) (pairs rest) of
            None \<Rightarrow> None | Some ps \<Rightarrow> Some (lead_piece lead # ps))"
      using Cons False by (cases rest) (simp_all add: document_pieces_def)
    show ?thesis
      using sections_loop_pieces [OF ev False, of cfg md5 path ttl "[]" lead] len Cons
      by (simp add: chunk_by_headers_def dp Let_def flush_Nil split: option.splits)
  qed
qed

section \<open>The chunker: sections\<close>

lemma chunk_by_size_loop_windows:
  assumes "0 \<le> overlap" "overlap < sz"
  shows "0 \<le> start \<Longrightarrow> chunk_by_size_loop words sz overlap start chunks =
      Some (chunks @ map (join '' '')
              (sliding_windows (drop (nat start) words) (nat sz) (nat (sz - overlap))))"
proof (induction "nat (int (length words) - start)" arbitrary: start chunks rule: less_induct)
  case less
  let ?d = "nat (sz - overlap)"
  have d: "?d \<noteq> 0" using assms by simp
  show ?case
  proof (cases "start < int (length words)")
    case False
    then have "drop (nat start) words = []" by simp
    then show ?thesis using False
      by (subst chunk_by_size_loop.simps) (simp add: sliding_windows.simps)
  next
    case True
    then have ne: "drop (nat start) words \<noteq> []" using less.prems by simp
    have w: "py_slice words start (start + sz) = take (nat sz) (drop (nat start) words)"
      using py_slice_window [of start sz words] less.prems assms by simp
    show ?thesis
    proof (cases "start + sz \<ge> int (length words)")
      case True
      have "int (length (drop (nat start) words)) = int (length words) - start"
        using \<open>start < int (length words)\<close> less.prems by simp
      then have "length (drop (nat start) words) \<le> nat sz"
        using True assms by linarith
      then have "sliding_windows (drop (nat start) words) (nat sz) ?d
                 = [take (nat sz) (drop (nat start) words)]"
        using ne d by (subst sliding_windows.simps) simp
      then show ?thesis using True \<open>start < int (length words)\<close> w
        by (subst chunk_by_size_loop.simps) (simp add: Let_def)
    next
      case False
      have "int (length (drop (nat start) words)) = int (length words) - start"
        using \<open>start < int (length words)\<close> less.prems by simp
      then have long: "\<not> length (drop (nat start) words) \<le> nat sz"
        using False assms by linarith
      have step: "nat (start + sz - overlap) = ?d + nat start"
        using assms less.prems by simp
      have "sliding_windows (drop (nat start) words) (nat sz) ?d
            = take (nat sz) (drop (nat start) words)
              # sliding_windows (drop (nat (start + sz - overlap)) words) (nat sz) ?d"
        using ne d long by (subst sliding_windows.simps) (simp add: step)
      moreover have "chunk_by_size_loop words sz overlap (start + sz - overlap)
              (chunks @ [join '' '' (py_slice words start (start + sz))])
            = Some ((chunks @ [join '' '' (py_slice words start (start + sz))])
                @ map (join '' '') (sliding_windows (drop (nat (start + sz - overlap)) words)
                     (nat sz) ?d))"
        using assms less.prems True by (intro less.hyps) linarith+
      ultimately show ?thesis using True False w
        by (subst chunk_by_size_loop.simps) (simp add: Let_def)
    qed
  qed
qed

lemma chunk_by_size_windows:
  assumes "0 \<le> overlap" "overlap < sz"
  shows "chunk_by_size s sz overlap =
         Some (map (join '' '') (sliding_windows (split_ws s) (nat sz) (nat (sz - overlap))))"
  using chunk_by_size_loop_windows [OF assms, of 0 "split_ws s" "[]"]
  by (simp add: chunk_by_size_def)

lemma split_words_length: "length (split_words acc s) \<le> length s + (if acc = [] then 0 else 1)"
proof (induction s arbitrary: acc)
  case Nil
  then show ?case by simp
next
  case (Cons a s)
  have "length (split_words [] s) \<le> length s"
    using Cons.IH [of "[]"] by simp
  moreover have "length (split_words (acc @ [a]) s) \<le> length s + 1"
    using Cons.IH [of "acc @ [a]"] by simp
  ultimately show ?case by simp
qed

lemma split_ws_length: "length (split_ws s) \<le> length s"
  using split_words_length [of "[]" s] by (simp add: split_ws_def)

lemma section_piece_texts:
  assumes "0 \<le> chunk_overlap cfg" "chunk_overlap cfg < chunk_size cfg"
  shows "\<exists>p. section_piece cfg sec = Some p \<and> emission_texts (snd p) = section_texts cfg sec"
proof (cases sec)
  case (Pair hdr body)
  show ?thesis
    unfolding Pair
    by (simp add: section_piece_def section_texts_def chunk_by_size_windows [OF assms])
qed

lemma all_some_texts:
  assumes "0 \<le> chunk_overlap cfg" "chunk_overlap cfg < chunk_size cfg"
  shows "\<exists>ps. all_some (section_piece cfg) secs = Some ps
              \<and> map (\<lambda>p. emission_texts (snd p)) ps = map (section_texts cfg) secs"
proof (induction secs)
  case Nil
  then show ?case by simp
next
  case (Cons sec secs)
  obtain p where p: "section_piece cfg sec = Some p"
      "emission_texts (snd p) = section_texts cfg sec"
    using section_piece_texts [OF assms] by blast
  obtain ps where ps: "all_some (section_piece cfg) secs = Some ps"
      "map (\<lambda>p. emission_texts (snd p)) ps = map (section_texts cfg) secs"
    using Cons.IH by blast
  have "all_some (section_piece cfg) (sec # secs) = Some (p # ps)"
    using p(1) ps(1) by simp
  moreover have "map (\<lambda>p. emission_texts (snd p)) (p # ps) = map (section_texts cfg) (sec # secs)"
    using p(2) ps(2) by simp
  ultimately show ?case by blast
qed

lemma piece_chunks_texts:
  "map chunk_text (piece_chunks md5 path ttl n p) = emission_texts (snd p)"
proof -
  have "map chunk_text (piece_chunks md5 path ttl n p)
        = map snd (zip (emission_keys path n (snd p)) (emission_texts (snd p)))"
    by (simp add: piece_chunks_def new_chunk_def case_prod_unfold)
  then show ?thesis
    by (simp add: emission_keys_length)
qed

lemma numbered_texts:
  "map chunk_text (numbered md5 path ttl n ps) = concat (map (\<lambda>p. emission_texts (snd p)) ps)"
  by (induction ps arbitrary: n) (simp_all add: piece_chunks_texts)

text \<open>
  C2 (as the code has it). Let the overlap be not negative and below the maximum size, and
  let the document have a header. The test that sends a section to the sliding window
  compares the number of characters of its normalized text with the maximum. Above it,
  and so for every section with more words than the maximum, the section is emitted as
  windows of \<open>chunk_size\<close> words, each \<open>chunk_size - chunk_overlap\<close> words after the one
  before, one chunk per window. A section of at most that many characters is emitted
  whole as one chunk when it has more than 50 characters, and is not emitted otherwise.
  The texts of the chunks of the document are those of the text before the first header
  and then those of the sections, in their order.
\<close>

theorem resplit_by_characters:
  assumes "0 \<le> chunk_overlap cfg" "chunk_overlap cfg < chunk_size cfg"
    and "re_split header_pattern doc = lead # rest" "rest \<noteq> []"
  shows "(\<exists>cs. chunk_by_headers cfg md5 doc path ttl = Some cs
              \<and> map chunk_text cs =
                  emission_texts (snd (lead_piece lead))
                  @ concat (map (section_texts cfg) (pairs rest)))
       \<and> (chunk_size cfg < int (length (split_ws s)) \<longrightarrow> chunk_size cfg < int (length s))"
proof
  obtain ps where ps: "all_some (section_piece cfg) (pairs rest) = Some ps"
      "map (\<lambda>p. emission_texts (snd p)) ps = map (section_texts cfg) (pairs rest)"
    using all_some_texts [OF assms(1,2)] by blast
  have "document_pieces cfg doc = Some (lead_piece lead # ps)"
    using assms(3,4) ps(1) by (cases rest) (simp_all add: document_pieces_def)
  then have "chunk_by_headers cfg md5 doc path ttl
             = Some (numbered md5 path ttl 0 (lead_piece lead # ps))"
    by (simp add: chunk_by_headers_pieces)
  moreover have "map chunk_text (numbered md5 path ttl 0 (lead_piece lead # ps))
      = emission_texts (snd (lead_piece lead)) @ concat (map (section_texts cfg) (pairs rest))"
    using ps(2) by (simp only: numbered_texts list.map concat.simps)
  ultimately show "\<exists>cs. chunk_by_headers cfg md5 doc path ttl = Some cs
              \<and> map chunk_text cs =
                  emission_texts (snd (lead_piece lead))
                  @ concat (map (section_texts cfg) (pairs rest))"
    by simp
next
  show "chunk_size cfg < int (length (split_ws s)) \<longrightarrow> chunk_size cfg < int (length s)"
    using split_ws_length [of s] by linarith
qed

theorem resplit_by_characters_witness:
  "0 \<le> chunk_overlap small_windows \<and> chunk_overlap small_windows < chunk_size small_windows
   \<and> re_split header_pattern ''x\<newline>## S\<newline>a b c d\<newline>## T\<newline>e\<newline>'' =
       [''x'', ''## S'', ''a b c d'', ''## T'', ''e\<newline>'']
   \<and> section_text ''## S'' ''a b c d'' = ''S\<newline>\<newline>a b c d''
   \<and> section_texts small_windows (''## S'', ''a b c d'') = [''S a b'', ''b c d'']
   \<and> section_texts small_windows (''## T'', ''e\<newline>'') = [''T e'']
   \<and> map chunk_text (the (chunk_by_headers small_windows (\<lambda>key. key)
            ''x\<newline>## S\<newline>a b c d\<newline>## T\<newline>e\<newline>'' ''p'' ''D'')) = [''S a b'', ''b c d'', ''T e'']
   \<and> chunk_by_headers small_windows (\<lambda>key. key) ''x\<newline>## S\<newline>a b c d\<newline>## T\<newline>e\<newline>'' ''p'' ''D'' =
       Some [new_chunk (\<lambda>key. key) ''p:0:0'' ''p'' ''D - S'' ''S a b'' ''S'',
             new_chunk (\<lambda>key. key) ''p:1:1'' ''p'' ''D - S'' ''b c d'' ''S'',
             new_chunk (\<lambda>key. key) ''p:2:0'' ''p'' ''D - T'' ''T e'' ''T'']"
proof -
  have a: "0 \<le> chunk_overlap small_windows" "chunk_overlap small_windows < chunk_size small_windows"
    by (simp_all add: small_windows_def)
  have b: "re_split header_pattern ''x\<newline>## S\<newline>a b c d\<newline>## T\<newline>e\<newline>'' =
       [''x'', ''## S'', ''a b c d'', ''## T'', ''e\<newline>'']"
    by code_simp
  have c: "[''## S'', ''a b c d'', ''## T'', ''e\<newline>''] \<noteq> []"
    by simp
  have d: "section_text ''## S'' ''a b c d'' = ''S\<newline>\<newline>a b c d''"
    by code_simp
  have e: "section_texts small_windows (''## S'', ''a b c d'') = [''S a b'', ''b c d'']"
    by code_simp
  have f: "section_texts small_windows (''## T'', ''e\<newline>'') = [''T e'']"
    by code_simp
  have g: "emission_texts (snd (lead_piece ''x'')) = []"
    by code_simp
  have h: "chunk_by_headers small_windows (\<lambda>key. key) ''x\<newline>## S\<newline>a b c d\<newline>## T\<newline>e\<newline>'' ''p'' ''D'' =
       Some [new_chunk (\<lambda>key. key) ''p:0:0'' ''p'' ''D - S'' ''S a b'' ''S'',
             new_chunk (\<lambda>key. key) ''p:1:1'' ''p'' ''D - S'' ''b c d'' ''S'',
             new_chunk (\<lambda>key. key) ''p:2:0'' ''p'' ''D - T'' ''T e'' ''T'']"
    by code_simp
  show ?thesis
    using resplit_by_characters [OF a b c, of "\<lambda>key. key" "''p''" "''D''"] a b d e f g h
    by (simp add: new_chunk_def)
qed

text \<open>
  C2 (as the spec words it) fails in both of its halves. With a maximum of 10, a section
  of 4 words and 19 characters is sent to the sliding window: what is emitted is not the
  cleaned text but its words joined by blanks, under the key of a window. And with the
  default maximum of 500, a section of 8 characters is not emitted at all.
\<close>

theorem section_resplit_counterexample:
  "clean_markdown (''Sec'' @ [nl, nl] @ ''aaaa bbbb cccc\<newline>'') = ''Sec\<newline>\<newline>aaaa bbbb cccc''
   \<and> int (length (split_ws ''Sec\<newline>\<newline>aaaa bbbb cccc'')) \<le> chunk_size ten_characters
   \<and> chunk_by_headers ten_characters (\<lambda>key. key) ''x\<newline>## Sec\<newline>aaaa bbbb cccc\<newline>'' ''p'' ''T'' =
       Some [new_chunk (\<lambda>key. key) ''p:0:0'' ''p'' ''T - Sec'' ''Sec aaaa bbbb cccc'' ''Sec'']
   \<and> clean_markdown (''Sec'' @ [nl, nl] @ ''abc\<newline>'') = ''Sec\<newline>\<newline>abc''
   \<and> int (length (split_ws ''Sec\<newline>\<newline>abc'')) \<le> chunk_size default_settings
   \<and> chunk_by_headers default_settings (\<lambda>key. key) ''x\<newline>## Sec\<newline>abc\<newline>'' ''p'' ''T'' = Some []"
  by code_simp

section \<open>The chunker: identifiers\<close>

lemma piece_chunks_ids:
  "map chunk_id (piece_chunks md5 path ttl n p) = map md5 (emission_keys path n (snd p))"
proof -
  have "map chunk_id (piece_chunks md5 path ttl n p)
        = map md5 (map fst (zip (emission_keys path n (snd p)) (emission_texts (snd p))))"
    by (simp add: piece_chunks_def new_chunk_def case_prod_unfold comp_def)
  then show ?thesis
    by (simp add: emission_keys_length)
qed

lemma numbered_ids:
  "map chunk_id (numbered md5 path ttl n ps) = map md5 (piece_keys path n ps)"
  by (induction ps arbitrary: n) (simp_all add: piece_chunks_ids)

text \<open>
  C6. The identifiers of the chunks of a document are the digests of the keys of its
  pieces, in their order: a piece emitted whole has the key \<^verbatim>\<open>{doc_path}:{n}\<close>, where \<open>n\<close>
  is the number of chunks emitted before it, and a section that is re-split has, for its
  window \<open>j\<close>, the key \<^verbatim>\<open>{doc_path}:{n + j}:{j}\<close>, where \<open>n + j\<close> is again the number of
  chunks emitted before that window. No key holds anything of the text. A second run on
  the same document and path, even with another title, gives the same sequence of
  identifiers.
\<close>

theorem chunk_ids_deterministic:
  assumes "chunk_by_headers cfg md5 doc path ttl = Some cs"
  shows "(\<exists>ps. document_pieces cfg doc = Some ps
              \<and> map chunk_id cs = map md5 (piece_keys path 0 ps))
       \<and> (\<forall>ttl' cs'. chunk_by_headers cfg md5 doc path ttl' = Some cs'
              \<longrightarrow> map chunk_id cs' = map chunk_id cs)"
proof -
  obtain ps where ps: "document_pieces cfg doc = Some ps" "cs = numbered md5 path ttl 0 ps"
    using assms by (auto simp: chunk_by_headers_pieces split: option.splits)
  have ids: "map chunk_id cs = map md5 (piece_keys path 0 ps)"
    by (simp add: ps(2) numbered_ids)
  have "map chunk_id cs' = map chunk_id cs"
    if "chunk_by_headers cfg md5 doc path ttl' = Some cs'" for ttl' cs'
  proof -
    have "cs' = numbered md5 path ttl' 0 ps"
      using that ps(1) by (simp add: chunk_by_headers_pieces)
    then show ?thesis by (simp add: ids numbered_ids)
  qed
  then show ?thesis using ps(1) ids by blast
qed

theorem chunk_ids_deterministic_witness:
  "chunk_by_headers small_windows (\<lambda>key. key) ''x\<newline>## S\<newline>a b c d\<newline>## T\<newline>e\<newline>'' ''p'' ''D'' =
     Some [new_chunk (\<lambda>key. key) ''p:0:0'' ''p'' ''D - S'' ''S a b'' ''S'',
           new_chunk (\<lambda>key. key) ''p:1:1'' ''p'' ''D - S'' ''b c d'' ''S'',
           new_chunk (\<lambda>key. key) ''p:2:0'' ''p'' ''D - T'' ''T e'' ''T'']
   \<and> document_pieces small_windows ''x\<newline>## S\<newline>a b c d\<newline>## T\<newline>e\<newline>'' =
       Some [(None, Nothing), (Some ''S'', Windows [''S a b'', ''b c d'']),
             (Some ''T'', Windows [''T e''])]
   \<and> piece_keys ''p'' 0 [(None, Nothing), (Some ''S'', Windows [''S a b'', ''b c d'']),
                          (Some ''T'', Windows [''T e''])] = [''p:0:0'', ''p:1:1'', ''p:2:0'']
   \<and> chunk_by_headers default_settings (\<lambda>key. key) sample_doc ''test.md'' ''Test Document'' =
       Some [new_chunk (\<lambda>key. key) ''test.md:0'' ''test.md'' ''Test Document - Section 1''
               ''Section 1\<newline>\<newline>The first section explains how the service is installed.'' ''Section 1'',
             new_chunk (\<lambda>key. key) ''test.md:1'' ''test.md'' ''Test Document - Section 2''
               ''Section 2\<newline>\<newline>The second section explains how the service is operated.'' ''Section 2'']
   \<and> document_pieces default_settings sample_doc =
       Some [(None, Nothing),
             (Some ''Section 1'', Whole ''Section 1\<newline>\<newline>The first section explains how the service is installed.''),
             (Some ''Section 2'', Whole ''Section 2\<newline>\<newline>The second section explains how the service is operated.'')]
   \<and> piece_keys ''test.md'' 0 [(None, Nothing),
             (Some ''Section 1'', Whole ''Section 1\<newline>\<newline>The first section explains how the service is installed.''),
             (Some ''Section 2'', Whole ''Section 2\<newline>\<newline>The second section explains how the service is operated.'')]
       = [''test.md:0'', ''test.md:1'']"
proof -
  have h: "chunk_by_headers small_windows (\<lambda>key. key) ''x\<newline>## S\<newline>a b c d\<newline>## T\<newline>e\<newline>'' ''p'' ''D'' =
     Some [new_chunk (\<lambda>key. key) ''p:0:0'' ''p'' ''D - S'' ''S a b'' ''S'',
           new_chunk (\<lambda>key. key) ''p:1:1'' ''p'' ''D - S'' ''b c d'' ''S'',
           new_chunk (\<lambda>key. key) ''p:2:0'' ''p'' ''D - T'' ''T e'' ''T'']"
    by code_simp
  have p: "document_pieces small_windows ''x\<newline>## S\<newline>a b c d\<newline>## T\<newline>e\<newline>'' =
       Some [(None, Nothing), (Some ''S'', Windows [''S a b'', ''b c d'']),
             (Some ''T'', Windows [''T e''])]"
    by code_simp
  have k: "piece_keys ''p'' 0 [(None, Nothing), (Some ''S'', Windows [''S a b'', ''b c d'']),
                          (Some ''T'', Windows [''T e''])] = [''p:0:0'', ''p:1:1'', ''p:2:0'']"
    by code_simp
  have h': "chunk_by_headers default_settings (\<lambda>key. key) sample_doc ''test.md'' ''Test Document'' =
       Some [new_chunk (\<lambda>key. key) ''test.md:0'' ''test.md'' ''Test Document - Section 1''
               ''Section 1\<newline>\<newline>The first section explains how the service is installed.'' ''Section 1'',
             new_chunk (\<lambda>key. key) ''test.md:1'' ''test.md'' ''Test Document - Section 2''
               ''Section 2\<newline>\<newline>The second section explains how the service is operated.'' ''Section 2'']"
    by code_simp
  have p': "document_pieces default_settings sample_doc =
       Some [(None, Nothing),
             (Some ''Section 1'', Whole ''Section 1\<newline>\<newline>The first section explains how the service is installed.''),
             (Some ''Section 2'', Whole ''Section 2\<newline>\<newline>The second section explains how the service is operated.'')]"
    by code_simp
  have k': "piece_keys ''test.md'' 0 [(None, Nothing),
             (Some ''Section 1'', Whole ''Section 1\<newline>\<newline>The first section explains how the service is installed.''),
             (Some ''Section 2'', Whole ''Section 2\<newline>\<newline>The second section explains how the service is operated.'')]
       = [''test.md:0'', ''test.md:1'']"
    by code_simp
  show ?thesis
    using chunk_ids_deterministic [OF h] chunk_ids_deterministic [OF h'] h p k h' p' k'
    by blast
qed

section \<open>The chunker: the test of the header sections\<close>

text \<open>
  C7 (the code at the input of the repository's own test \<^verbatim>\<open>test_chunk_by_headers\<close>). The
  document has the headers \<^verbatim>\<open># Main Title\<close>, \<^verbatim>\<open>## Section 1\<close> and \<^verbatim>\<open>## Section 2\<close>, each
  followed by a line of text. The first header, on the first line, is no delimiter for
  the split, which wants a line feed before a header; and each of the three parts has at
  most 50 characters after cleaning, so none is emitted. The chunker returns no chunk,
  where the test and the specification expect one with \<^verbatim>\<open>Section 1\<close> and one with
  \<^verbatim>\<open>Section 2\<close> in its title.
\<close>

theorem test_document_no_chunks:
  "re_split header_pattern test_document =
     [''# Main Title\<newline>\<newline>This is intro content.\<newline>'', ''## Section 1'',
      ''\<newline>Content for section 1.\<newline>'', ''## Section 2'', ''\<newline>Content for section 2.\<newline>'']
   \<and> section_text ''## Section 1'' ''\<newline>Content for section 1.\<newline>''
       = ''Section 1\<newline>\<newline>Content for section 1.''
   \<and> section_text ''## Section 2'' ''\<newline>Content for section 2.\<newline>''
       = ''Section 2\<newline>\<newline>Content for section 2.''
   \<and> chunk_by_headers default_settings (\<lambda>key. key) test_document ''test.md'' ''Test Document''
       = Some []"
  by code_simp

section \<open>The relevance score\<close>

text \<open>
  C4 (as the code has it). The score is \<open>max 0 (1 - d)\<close>; it is never negative, it is
  at most 1 whenever the distance is not negative, and it does not grow when the distance
  grows. Nothing bounds the score from above for a negative distance.
\<close>

theorem score_of_distance_bounds:
  "score_of_distance d = max 0 (1 - d) \<and> 0 \<le> score_of_distance d
   \<and> (0 \<le> d \<longrightarrow> score_of_distance d \<le> 1)
   \<and> (d \<le> d' \<longrightarrow> score_of_distance d' \<le> score_of_distance d)"
  by (auto simp: score_of_distance_def py_max_def)

theorem score_of_distance_bounds_witness:
  "(0::real) \<le> 1/2 \<and> (1/2::real) \<le> 3 \<and> score_of_distance (1/2) = 1/2
   \<and> score_of_distance 3 = 0 \<and> score_of_distance 3 \<le> score_of_distance (1/2)"
  using score_of_distance_bounds [of "1/2" 3]
  by (simp add: score_of_distance_def py_max_def)

text \<open>
  C4 (as the spec words it) fails for a negative distance: the score of \<open>-1\<close> is 2.
\<close>

theorem score_of_distance_counterexample:
  "\<not> (0 \<le> score_of_distance (-1) \<and> score_of_distance (-1) \<le> 1)"
  by (simp add: score_of_distance_def py_max_def)

section \<open>Ingestion\<close>



lemma embed_loop_fails:
  assumes "embed_content (chunk_text chunk) = Inl e"
    and "\<forall>c \<in> set before. \<exists>v. embed_content (chunk_text c) = Inr v"
  shows "\<exists>lg'. embed_loop embed_content n i (before @ chunk # rest) lg =
           (lg' @ [(ERROR, ''Error embedding chunk '' @ chunk_id chunk @ '': '' @ error_message e)], Inl e)"
  using assms(2)
proof (induction before arbitrary: i lg)
  case Nil
  then show ?case using assms(1) by simp
next
  case (Cons c before)
  then obtain v where v: "embed_content (chunk_text c) = Inr v" by auto
  let ?lg = "if (i + 1) mod 10 = 0
             then lg @ [(INFO, ''Embedded '' @ str_nat (i + 1) @ ''/'' @ str_nat n @ '' chunks'')]
             else lg"
  obtain lg' where "embed_loop embed_content n (i + 1) (before @ chunk # rest) ?lg =
           (lg' @ [(ERROR, ''Error embedding chunk '' @ chunk_id chunk @ '': '' @ error_message e)], Inl e)"
    using Cons.IH [of "i + 1" ?lg] Cons.prems by auto
  then show ?case using v by (auto simp: Let_def)
qed

lemma first_failure:
  assumes "\<exists>c \<in> set cs. \<exists>e. f c = Inl e"
  shows "\<exists>before c rest e. cs = before @ c # rest \<and> f c = Inl e \<and> (\<forall>b \<in> set before. \<exists>v. f b = Inr v)"
  using assms
proof (induction cs)
  case Nil
  then show ?case by simp
next
  case (Cons a cs)
  show ?case
  proof (cases "f a")
    case (Inl e)
    then have "a # cs = [] @ a # cs \<and> f a = Inl e \<and> (\<forall>b \<in> set []. \<exists>v. f b = Inr v)" by simp
    then show ?thesis by blast
  next
    case (Inr v)
    then have "\<exists>c \<in> set cs. \<exists>e. f c = Inl e" using Cons.prems by auto
    then obtain before c rest e where
      "cs = before @ c # rest" "f c = Inl e" "\<forall>b \<in> set before. \<exists>v. f b = Inr v"
      using Cons.IH by blast
    then have "a # cs = (a # before) @ c # rest \<and> f c = Inl e \<and> (\<forall>b \<in> set (a # before). \<exists>v. f b = Inr v)"
      using Inr by auto
    then show ?thesis by blast
  qed
qed

lemma embed_chunks_fails:
  assumes "\<exists>c \<in> set chunks. \<exists>e. embed_content (chunk_text c) = Inl e"
  shows "\<exists>lg' c e. c \<in> set chunks \<and> embed_content (chunk_text c) = Inl e \<and>
           embed_chunks embed_content chunks lg =
           (lg' @ [(ERROR, ''Error embedding chunk '' @ chunk_id c @ '': '' @ error_message e)], Inl e)"
proof -
  obtain before c rest e where s: "chunks = before @ c # rest" "embed_content (chunk_text c) = Inl e"
     "\<forall>b \<in> set before. \<exists>v. embed_content (chunk_text b) = Inr v"
    using first_failure [of chunks "\<lambda>c. embed_content (chunk_text c)"] assms by blast
  obtain lg' where "embed_loop embed_content (length chunks) 0 chunks
             (lg @ [(INFO, ''Embedding '' @ str_nat (length chunks) @ '' chunks...'')]) =
           (lg' @ [(ERROR, ''Error embedding chunk '' @ chunk_id c @ '': '' @ error_message e)], Inl e)"
    using embed_loop_fails [OF s(2,3)] unfolding s(1) by blast
  then have "embed_chunks embed_content chunks lg =
           (lg' @ [(ERROR, ''Error embedding chunk '' @ chunk_id c @ '': '' @ error_message e)], Inl e)"
    by (simp add: embed_chunks_def)
  moreover have "c \<in> set chunks" using s(1) by simp
  ultimately show ?thesis using s(2) by blast
qed

text \<open>
  C3 (as the code has it). When the embedding of a chunk fails, \<^verbatim>\<open>embed_chunks\<close> logs the
  failure and raises it again: \<^verbatim>\<open>ingest_docs\<close> ends with that exception, the last record of
  the log is the error, and the collection, cleared at the start, stays empty: no chunk is
  indexed and no count is returned. A document that fails to parse is logged and passed
  over, and the loop goes on with the other files.
\<close>

theorem embedding_failure_aborts:
  "(docs_path_exists docs
     \<and> files_loop cfg md5 (parse_markdown_file docs) (md_files docs)
          ([], lg @ [(INFO, ''Starting document ingestion...''),
                     (INFO, ''Found '' @ str_nat (length (md_files docs)) @ '' markdown files'')])
        = Some (all_chunks, lg3)
     \<and> (\<exists>c \<in> set all_chunks. \<exists>e. embed_content (chunk_text c) = Inl e)
    \<longrightarrow> (\<exists>lg' c e. c \<in> set all_chunks \<and> embed_content (chunk_text c) = Inl e \<and>
          ingest_docs cfg md5 docs embed_content rejects fails (collection, lg) =
            Some (([], lg' @ [(ERROR, ''Error embedding chunk '' @ chunk_id c @ '': ''
                                      @ error_message e)]), Inl e)))
   \<and> (\<not> (startswith (path_name md_file) ''.'' \<or> contains md_file ''node_modules'')
       \<and> parse md_file = Inl e'
      \<longrightarrow> files_loop cfg md5 parse (md_file # rest) (chunks, lg) =
          files_loop cfg md5 parse rest
            (chunks, lg @ [(ERROR, ''Error processing '' @ md_file @ '': '' @ error_message e')]))"
proof (intro conjI impI)
  assume a: "docs_path_exists docs
     \<and> files_loop cfg md5 (parse_markdown_file docs) (md_files docs)
          ([], lg @ [(INFO, ''Starting document ingestion...''),
                     (INFO, ''Found '' @ str_nat (length (md_files docs)) @ '' markdown files'')])
        = Some (all_chunks, lg3)
     \<and> (\<exists>c \<in> set all_chunks. \<exists>e. embed_content (chunk_text c) = Inl e)"
  then have ne: "all_chunks \<noteq> []" by auto
  obtain lg' c e where f: "c \<in> set all_chunks" "embed_content (chunk_text c) = Inl e"
     "embed_chunks embed_content all_chunks
        (lg3 @ [(INFO, ''Total chunks created: '' @ str_nat (length all_chunks))]) =
      (lg' @ [(ERROR, ''Error embedding chunk '' @ chunk_id c @ '': '' @ error_message e)], Inl e)"
    using embed_chunks_fails [of all_chunks embed_content] a by blast
  have "ingest_docs cfg md5 docs embed_content rejects fails (collection, lg) =
            Some (([], lg' @ [(ERROR, ''Error embedding chunk '' @ chunk_id c @ '': ''
                                      @ error_message e)]), Inl e)"
    using a ne f(3) by (simp add: ingest_docs_def clear_def Let_def)
  then show "\<exists>lg' c e. c \<in> set all_chunks \<and> embed_content (chunk_text c) = Inl e \<and>
          ingest_docs cfg md5 docs embed_content rejects fails (collection, lg) =
            Some (([], lg' @ [(ERROR, ''Error embedding chunk '' @ chunk_id c @ '': ''
                                      @ error_message e)]), Inl e)"
    using f(1,2) by blast
next
  assume "\<not> (startswith (path_name md_file) ''.'' \<or> contains md_file ''node_modules'')
       \<and> parse md_file = Inl e'"
  then show "files_loop cfg md5 parse (md_file # rest) (chunks, lg) =
          files_loop cfg md5 parse rest
            (chunks, lg @ [(ERROR, ''Error processing '' @ md_file @ '': '' @ error_message e')])"
    by simp
qed

theorem embedding_failure_aborts_witness:
  "docs_path_exists two_files
   \<and> files_loop default_settings (\<lambda>key. key) (parse_markdown_file two_files) (md_files two_files)
        ([], [] @ [(INFO, ''Starting document ingestion...''),
                   (INFO, ''Found '' @ str_nat (length (md_files two_files)) @ '' markdown files'')])
      = Some ([new_chunk (\<lambda>key. key) ''a.md:0'' ''a.md'' ''A'' ''Alpha'' ''A'',
               new_chunk (\<lambda>key. key) ''b.md:0'' ''b.md'' ''B'' ''Beta'' ''B''],
              [(INFO, ''Starting document ingestion...''), (INFO, ''Found 2 markdown files''),
               (INFO, ''Processing: a.md''), (INFO, ''  Created 1 chunks from a.md''),
               (INFO, ''Processing: b.md''), (INFO, ''  Created 1 chunks from b.md'')])
   \<and> (\<exists>c \<in> set [new_chunk (\<lambda>key. key) ''a.md:0'' ''a.md'' ''A'' ''Alpha'' ''A'',
                    new_chunk (\<lambda>key. key) ''b.md:0'' ''b.md'' ''B'' ''Beta'' ''B''].
         \<exists>e. fails_on_beta (chunk_text c) = Inl e)
   \<and> (\<exists>lg' (c::DocumentChunk) e. ingest_docs default_settings (\<lambda>key. key) two_files fails_on_beta (\<lambda>batch. None)
                      (\<lambda>c. None) ([sample_entry], []) =
                    Some (([], lg' @ [(ERROR, ''Error embedding chunk '' @ chunk_id c @ '': ''
                                              @ error_message e)]), Inl e))
   \<and> \<not> (startswith (path_name ''/srv/docs/c.md'') ''.'' \<or> contains ''/srv/docs/c.md'' ''node_modules'')
   \<and> files_loop default_settings (\<lambda>key. key) (\<lambda>f. Inl (Failure ''bad front matter''))
        [''/srv/docs/c.md''] ([], []) =
       Some ([], [(ERROR, ''Error processing /srv/docs/c.md: bad front matter'')])"
proof -
  let ?cs = "[new_chunk (\<lambda>key. key) ''a.md:0'' ''a.md'' ''A'' ''Alpha'' ''A'',
              new_chunk (\<lambda>key. key) ''b.md:0'' ''b.md'' ''B'' ''Beta'' ''B'']"
  let ?lg = "[(INFO, ''Starting document ingestion...''), (INFO, ''Found 2 markdown files''),
              (INFO, ''Processing: a.md''), (INFO, ''  Created 1 chunks from a.md''),
              (INFO, ''Processing: b.md''), (INFO, ''  Created 1 chunks from b.md'')]"
  have files: "files_loop default_settings (\<lambda>key. key) (parse_markdown_file two_files) (md_files two_files)
        ([], [] @ [(INFO, ''Starting document ingestion...''),
                   (INFO, ''Found '' @ str_nat (length (md_files two_files)) @ '' markdown files'')])
      = Some (?cs, ?lg)"
    by (simp add: two_files_def path_name_def chunk_by_headers_def clean_markdown_def
          str_nat.simps re_defs)
  have fail: "\<exists>c \<in> set ?cs. \<exists>e. fails_on_beta (chunk_text c) = Inl e"
    by (simp add: new_chunk_def fails_on_beta_def)
  have ex: "docs_path_exists two_files"
    by (simp add: two_files_def)
  have name: "\<not> (startswith (path_name ''/srv/docs/c.md'') ''.'' \<or> contains ''/srv/docs/c.md'' ''node_modules'')"
    by (simp add: path_name_def)
  note t = embedding_failure_aborts [of two_files default_settings "\<lambda>key. key" "[]" ?cs ?lg
        fails_on_beta "\<lambda>batch. None" "\<lambda>c. None" "[sample_entry]" "''/srv/docs/c.md''"
        "\<lambda>f. Inl (Failure ''bad front matter'')" "Failure ''bad front matter''" "[]" "[]"]
  have aborts: "\<exists>lg' (c::DocumentChunk) e. ingest_docs default_settings (\<lambda>key. key) two_files fails_on_beta
                      (\<lambda>batch. None) (\<lambda>c. None) ([sample_entry], []) =
                    Some (([], lg' @ [(ERROR, ''Error embedding chunk '' @ chunk_id c @ '': ''
                                              @ error_message e)]), Inl e)"
    using t [THEN conjunct1, THEN mp, OF conjI [OF ex conjI [OF files fail]]]
    by (elim exE conjE) (intro exI, assumption)
  have "files_loop default_settings (\<lambda>key. key) (\<lambda>f. Inl (Failure ''bad front matter''))
          [''/srv/docs/c.md''] ([], []) =
        files_loop default_settings (\<lambda>key. key) (\<lambda>f. Inl (Failure ''bad front matter'')) []
          ([], [] @ [(ERROR, ''Error processing '' @ ''/srv/docs/c.md'' @ '': ''
                             @ error_message (Failure ''bad front matter''))])"
    using t [THEN conjunct2, THEN mp, OF conjI [OF name refl]] .
  then have skips: "files_loop default_settings (\<lambda>key. key) (\<lambda>f. Inl (Failure ''bad front matter''))
        [''/srv/docs/c.md''] ([], []) =
       Some ([], [(ERROR, ''Error processing /srv/docs/c.md: bad front matter'')])"
    by simp
  show ?thesis
    by (intro conjI ex files fail aborts name skips)
qed

text \<open>
  C3 (as the spec words it) fails: of two chunks, the embedding of the second fails. The
  run does not index the first chunk and report one chunk; it ends with the exception, and
  the collection is empty.
\<close>

theorem embedding_failure_counterexample:
  "ingest_docs default_settings (\<lambda>key. key) two_files fails_on_beta (\<lambda>batch. None)
     (\<lambda>c. None) ([sample_entry], []) =
   Some (([], [(INFO, ''Starting document ingestion...''), (INFO, ''Found 2 markdown files''),
               (INFO, ''Processing: a.md''), (INFO, ''  Created 1 chunks from a.md''),
               (INFO, ''Processing: b.md''), (INFO, ''  Created 1 chunks from b.md''),
               (INFO, ''Total chunks created: 2''), (INFO, ''Embedding 2 chunks...''),
               (ERROR, ''Error embedding chunk b.md:0: quota exceeded'')]),
         Inl (Failure ''quota exceeded''))"
  by (simp add: ingest_docs_def clear_def embed_chunks_def two_files_def path_name_def
        chunk_by_headers_def clean_markdown_def new_chunk_def fails_on_beta_def
        str_nat.simps re_defs)

section \<open>Retrieval\<close>




section \<open>The prompt\<close>

lemma history_parts_render:
  "history_parts msgs =
     map render_message (filter (\<lambda>m. role m = ''user'' \<or> role m = ''assistant'') msgs)"
  by (induction msgs) (simp_all add: Let_def render_message_def)

lemma history_text_rendered:
  "history_text conversation_history =
     (if rendered_history conversation_history = [] then []
      else [nl, nl] @ ''PREVIOUS CONVERSATION:'' @ [nl]
           @ join [nl] (rendered_history conversation_history) @ [nl])"
proof (cases conversation_history)
  case None
  then show ?thesis by (simp add: history_text_def rendered_history_def)
next
  case (Some msgs)
  then show ?thesis
    by (cases msgs) (simp_all add: history_text_def rendered_history_def Let_def
          history_parts_render del: history_parts.simps)
qed

text \<open>
  C8. The prompt is the instructions, the history block, the context, the sources and the
  question. The history block holds one line for every message of the role \<^verbatim>\<open>user\<close> or
  \<^verbatim>\<open>assistant\<close>, in the order of the history: \<^verbatim>\<open>Q: \<close> or \<^verbatim>\<open>A: \<close> followed by the first 500
  characters of the content; a message of another role gives no line. Where no line is
  rendered (no history, an empty one, or no message of the two roles) the block is left
  out: the instructions are followed by the context at once.
\<close>

theorem build_prompt_history:
  "build_prompt question context chunks conversation_history =
     prompt_preamble
     @ (if rendered_history conversation_history = [] then []
        else [nl, nl] @ ''PREVIOUS CONVERSATION:'' @ [nl]
             @ join [nl] (rendered_history conversation_history) @ [nl])
     @ [nl] @ ''CONTEXT FROM DOCUMENTATION:'' @ [nl] @ context @ [nl, nl]
     @ ''AVAILABLE SOURCES:'' @ [nl]
     @ join [nl] (map (\<lambda>chunk. ''- '' @ r_title chunk @ '' (from '' @ r_doc_path chunk @ '')'')
                      chunks)
     @ [nl, nl] @ ''CURRENT QUESTION: '' @ question @ [nl, nl]
     @ ''ANSWER (cite documentation sources when using them):''"
  by (simp add: build_prompt_def history_text_rendered)

theorem build_prompt_history_witness:
  "rendered_history (Some sample_history) = [''Q: '' @ replicate 500 CHR ''a'', ''A: ok'']
   \<and> build_prompt ''why?'' ''ctx'' [] (Some sample_history) =
       prompt_preamble @ [nl, nl] @ ''PREVIOUS CONVERSATION:'' @ [nl]
       @ ''Q: '' @ replicate 500 CHR ''a'' @ [nl] @ ''A: ok'' @ [nl]
       @ [nl] @ ''CONTEXT FROM DOCUMENTATION:'' @ [nl] @ ''ctx'' @ [nl, nl]
       @ ''AVAILABLE SOURCES:'' @ [nl] @ [nl, nl] @ ''CURRENT QUESTION: why?'' @ [nl, nl]
       @ ''ANSWER (cite documentation sources when using them):''
   \<and> rendered_history None = []
   \<and> rendered_history (Some [\<lparr>role = ''system'', content = ''be brief''\<rparr>]) = []
   \<and> build_prompt ''why?'' ''ctx'' [] None =
       prompt_preamble @ [nl] @ ''CONTEXT FROM DOCUMENTATION:'' @ [nl] @ ''ctx'' @ [nl, nl]
       @ ''AVAILABLE SOURCES:'' @ [nl] @ [nl, nl] @ ''CURRENT QUESTION: why?'' @ [nl, nl]
       @ ''ANSWER (cite documentation sources when using them):''"
proof -
  have r: "rendered_history (Some sample_history) = [''Q: '' @ replicate 500 CHR ''a'', ''A: ok'']"
    by (simp add: rendered_history_def render_message_def sample_history_def)
  have n: "rendered_history None = []"
      "rendered_history (Some [\<lparr>role = ''system'', content = ''be brief''\<rparr>]) = []"
    by (simp_all add: rendered_history_def)
  show ?thesis
    using build_prompt_history [of "''why?''" "''ctx''" "[]" "Some sample_history"]
      build_prompt_history [of "''why?''" "''ctx''" "[]" None] r n
    by simp
qed

end
